theory Spec2Isabelle
  imports Main
begin

section \<open>The charm builder of cmd/gocharm/gocharm.go\<close>

text \<open>
  The builder compiles a \<open>runhook\<close> program, asks the compiled package which hooks,
  relations and configuration options it registers, and writes the charm directory: hook
  stubs, \<open>metadata.yaml\<close>, \<open>config.yaml\<close> and, when the source is vendored, the
  dependencies and a \<open>compile\<close> script.

  Go strings are byte strings and are modelled as \<open>string\<close>. An \<open>error\<close> return is a value
  of the datatype \<open>error\<close>; a panic is the constructor \<open>Panic\<close>. A function with effects
  on the file system takes the file system and returns it with its error status, so that
  the files written before a failure stay visible.
\<close>

subsection \<open>Errors\<close>

text \<open>
  \<open>errors.New\<close>, \<open>errors.Newf\<close>, \<open>errors.Wrap\<close> and \<open>errors.Wrapf\<close> of errgo. \<open>Newf\<close> and
  \<open>Wrapf\<close> keep the format string and its arguments apart (no \<open>fmt\<close> verb is interpreted).
  \<open>ExecError name e\<close> is \<open>*exec.Error{Name: name, Err: e}\<close>, \<open>ErrNotFound\<close> is the sentinel
  \<open>exec.ErrNotFound\<close>, \<open>ExitError\<close> is a process that ran and failed, \<open>PathError op path\<close>
  is a failed file system call and \<open>LibError\<close> an error of the YAML or charm library.
\<close>

datatype error =
    New string
  | Newf string "string list"
  | Wrap error
  | Wrapf error string "string list"
  | ErrNotFound
  | ExecError string error
  | ExitError string
  | PathError string string
  | LibError string
  | Panic string

subsection \<open>Package strings\<close>

text \<open>\<open>strings.Index(s, "=")\<close> for a one-byte separator: the first position of the byte.\<close>

fun Index :: "string \<Rightarrow> char \<Rightarrow> nat option" where
  "Index [] c = None"
| "Index (x # xs) c = (if x = c then Some 0 else map_option Suc (Index xs c))"

definition HasPrefix :: "string \<Rightarrow> string \<Rightarrow> bool" where
  "HasPrefix s pfx = (take (length pfx) s = pfx)"

subsection \<open>setenv\<close>

text \<open>
  The loop of \<open>setenv\<close>: the first element with the prefix is overwritten in place and the
  slice returned; \<open>None\<close> when the loop falls through.
\<close>

fun setenv_loop :: "string \<Rightarrow> string \<Rightarrow> string list \<Rightarrow> string list option" where
  "setenv_loop pfx entry [] = None"
| "setenv_loop pfx entry (e # es) =
     (if HasPrefix e pfx then Some (entry # es)
      else map_option ((#) e) (setenv_loop pfx entry es))"

definition setenv :: "string list \<Rightarrow> string \<Rightarrow> error + string list" where
  "setenv env entry =
     (case Index entry (CHR ''='') of
        None \<Rightarrow> Inl (Panic ''no = in environment entry'')
      | Some i \<Rightarrow>
          (let pfx = take (i + 1) entry in
           case setenv_loop pfx entry env of
             Some env' \<Rightarrow> Inr env'
           | None \<Rightarrow> Inr (env @ [entry])))"

text \<open>The key of an entry, as the claim words it: the text before the first \<open>=\<close>.\<close>

definition entry_key :: "string \<Rightarrow> string" where
  "entry_key entry = takeWhile (\<lambda>c. c \<noteq> CHR ''='') entry"

subsection \<open>Package path/filepath, on a Unix host\<close>

text \<open>
  The functions of Go's standard library that the builder calls, for \<open>/\<close> as the only
  separator and no volume names. \<open>Clean\<close> works on the elements between separators: empty
  elements and \<open>.\<close> are dropped, \<open>..\<close> removes the element before it, is dropped at the
  root and is kept at the start of a relative path.
\<close>

fun split_sep :: "string \<Rightarrow> string list" where
  "split_sep [] = [[]]"
| "split_sep (c # cs) =
     (if c = CHR ''/'' then [] # split_sep cs
      else (case split_sep cs of [] \<Rightarrow> [[c]] | x # xs \<Rightarrow> (c # x) # xs))"

fun join_sep :: "string list \<Rightarrow> string" where
  "join_sep [] = []"
| "join_sep [x] = x"
| "join_sep (x # y # ys) = x @ ''/'' @ join_sep (y # ys)"

fun clean_elems :: "bool \<Rightarrow> string list \<Rightarrow> string list \<Rightarrow> string list" where
  "clean_elems rooted out [] = out"
| "clean_elems rooted out (c # cs) =
     (if c = [] \<or> c = ''.'' then clean_elems rooted out cs
      else if c = ''..'' then
        (if out \<noteq> [] \<and> last out \<noteq> ''..'' then clean_elems rooted (butlast out) cs
         else if \<not> rooted then clean_elems rooted (out @ [''..'']) cs
         else clean_elems rooted out cs)
      else clean_elems rooted (out @ [c]) cs)"

definition Clean :: "string \<Rightarrow> string" where
  "Clean path =
     (if path = [] then ''.''
      else let rooted = (hd path = CHR ''/'');
               out = (if rooted then ''/'' else []) @ join_sep (clean_elems rooted [] (split_sep path))
           in if out = [] then ''.'' else out)"

definition Join :: "string list \<Rightarrow> string" where
  "Join elem = (case dropWhile (\<lambda>e. e = []) elem of [] \<Rightarrow> [] | es \<Rightarrow> Clean (join_sep es))"

definition Base :: "string \<Rightarrow> string" where
  "Base path =
     (if path = [] then ''.''
      else let stripped = rev (dropWhile (\<lambda>c. c = CHR ''/'') (rev path));
               e = rev (takeWhile (\<lambda>c. c \<noteq> CHR ''/'') (rev stripped))
           in if e = [] then ''/'' else e)"

definition Dir :: "string \<Rightarrow> string" where
  "Dir path = Clean (rev (dropWhile (\<lambda>c. c \<noteq> CHR ''/'') (rev path)))"

subsection \<open>The file system\<close>

text \<open>
  A file system maps a path, as text, to its node: a regular file with its contents and
  permission bits, or a directory. Paths are not resolved against a working directory
  and there are no symbolic links; the root and \<open>.\<close> are directories that always exist.
  Every call returns its error status and the file system after it.

  \<open>MkdirAll\<close> fails when the path or one of its ancestors is a regular file and creates
  nothing then. \<open>WriteFile\<close> fails on a directory and under a missing parent; it truncates
  an existing file, whose permission bits stay, and creates a missing one with the bits
  given. \<open>RemoveAll\<close> removes the path and everything below it.
\<close>

datatype node = RegFile string nat | Directory

type_synonym fs = "string \<Rightarrow> node option"

fun prefixes1 :: "'a list \<Rightarrow> 'a list list" where
  "prefixes1 [] = []"
| "prefixes1 (x # xs) = [x] # map ((#) x) (prefixes1 xs)"

definition dir_chain :: "string \<Rightarrow> string list" where
  "dir_chain path =
     (let p = Clean path; rooted = (hd p = CHR ''/'')
      in map (\<lambda>es. (if rooted then ''/'' else []) @ join_sep es)
           (prefixes1 (filter (\<lambda>e. e \<noteq> [] \<and> e \<noteq> ''.'') (split_sep p))))"

definition is_dir :: "fs \<Rightarrow> string \<Rightarrow> bool" where
  "is_dir s path = (path = ''/'' \<or> path = ''.'' \<or> s path = Some Directory)"

definition is_file :: "fs \<Rightarrow> string \<Rightarrow> bool" where
  "is_file s path = (case s path of Some (RegFile data perm) \<Rightarrow> True | _ \<Rightarrow> False)"

fun mkdirs :: "string list \<Rightarrow> fs \<Rightarrow> fs" where
  "mkdirs [] s = s"
| "mkdirs (d # ds) s = mkdirs ds (s(d \<mapsto> Directory))"

definition MkdirAll :: "string \<Rightarrow> nat \<Rightarrow> fs \<Rightarrow> error option \<times> fs" where
  "MkdirAll path perm s =
     (case find (is_file s) (dir_chain path) of
        Some d \<Rightarrow> (Some (PathError ''mkdir'' d), s)
      | None \<Rightarrow> (None, mkdirs (dir_chain path) s))"

definition WriteFile :: "string \<Rightarrow> string \<Rightarrow> nat \<Rightarrow> fs \<Rightarrow> error option \<times> fs" where
  "WriteFile path data perm s =
     (if \<not> is_dir s (Dir path) then (Some (PathError ''open'' path), s)
      else case s path of
             Some Directory \<Rightarrow> (Some (PathError ''open'' path), s)
           | Some (RegFile old perm0) \<Rightarrow> (None, s(path \<mapsto> RegFile data perm0))
           | None \<Rightarrow> (None, s(path \<mapsto> RegFile data perm)))"

definition ReadDir :: "string \<Rightarrow> fs \<Rightarrow> error option \<times> fs" where
  "ReadDir path s = (if is_dir s path then (None, s) else (Some (PathError ''open'' path), s))"

definition Stat :: "string \<Rightarrow> fs \<Rightarrow> bool" where
  "Stat path s = (path = ''/'' \<or> path = ''.'' \<or> s path \<noteq> None)"

definition below :: "string \<Rightarrow> string \<Rightarrow> bool" where
  "below path q = (q = path \<or> take (length path + 1) q = path @ ''/'')"

definition RemoveAll :: "string \<Rightarrow> fs \<Rightarrow> fs" where
  "RemoveAll path s = (\<lambda>q. if below path q then None else s q)"

text \<open>
  The idiom \<open>if err := f(); err != nil { return wrap(err) }\<close>: the error is wrapped and
  returned with the file system as \<open>f\<close> left it, a panic unwinds as it is, and the rest
  runs otherwise. \<open>deferred\<close> is a \<open>defer\<close> of a clean-up: it runs on every return.
\<close>

definition orReturn ::
  "error option \<times> fs \<Rightarrow> (error \<Rightarrow> error) \<Rightarrow> (fs \<Rightarrow> error option \<times> fs) \<Rightarrow> error option \<times> fs" where
  "orReturn r wrap k =
     (case r of
        (Some (Panic m), s) \<Rightarrow> (Some (Panic m), s)
      | (Some e, s) \<Rightarrow> (Some (wrap e), s)
      | (None, s) \<Rightarrow> k s)"

definition deferred :: "(fs \<Rightarrow> fs) \<Rightarrow> error option \<times> fs \<Rightarrow> error option \<times> fs" where
  "deferred cleanup r = (fst r, cleanup (snd r))"

subsection \<open>Data of the charm library\<close>

text \<open>
  Modelled from the spec: the types \<open>charm.Relation\<close>, \<open>charm.Meta\<close>, \<open>charm.Option\<close> and
  \<open>charm.Config\<close> and the role constants of gopkg.in/juju/charm.v4 are declared outside
  this repository. A relation has a name, a role, an interface and a scope; the roles are
  \<open>provider\<close>, \<open>requirer\<close> and \<open>peer\<close>; an option has a type, a description and a default. A
  role is a string in Go, so a relation can carry any other text as its role. Of the
  metadata, the builder touches the name and the three relation maps; summary and
  description stand for the fields it leaves alone. A Go map read by \<open>range\<close> is the list
  of its entries in the order of that iteration.
\<close>

record relation =
  relName :: string
  relRole :: string
  relInterface :: string
  relScope :: string

definition RoleProvider :: string where "RoleProvider = ''provider''"
definition RoleRequirer :: string where "RoleRequirer = ''requirer''"
definition RolePeer :: string where "RolePeer = ''peer''"

record meta =
  Name :: string
  Summary :: string
  Description :: string
  Provides :: "string \<rightharpoonup> relation"
  Requires :: "string \<rightharpoonup> relation"
  Peers :: "string \<rightharpoonup> relation"

datatype default_value = NoDefault | DString string | DInt int | DBool bool

record opt =
  optType :: string
  optDescription :: string
  optDefault :: default_value

record config =
  Options :: "(string \<times> opt) list"

text \<open>
  Modelled from the spec: \<open>charmInfo\<close> is the result type of \<open>registeredCharmInfo\<close>, which is
  declared in a file of this repository that is not among the sources: the hook names,
  the relations by name and the configuration options by name.
\<close>

record charmInfo =
  Hooks :: "string list"
  Relations :: "(string \<times> relation) list"
  Config :: "(string \<times> opt) list"

subsection \<open>The host\<close>

text \<open>
  What the builder takes from outside: the process environment (\<open>os.Environ\<close>), the
  external programs (\<open>Run dir env cmd args\<close> is \<open>runCmd(dir, env, cmd, args...).Run()\<close>,
  with \<open>None\<close> for a nil environment; a program may change the file system in any way),
  the introspection of the compiled package, the charm and YAML libraries, and the \<open>%q\<close>
  verb of \<open>fmt\<close>.

  Modelled from the spec: \<open>registeredCharmInfo\<close> is not among the sources. It builds and
  runs a probe in the scratch directory and returns the snapshot or fails; the files of
  the probe are not tracked.

  The \<open>verbose\<close> flag only adds log lines and is left out.
\<close>

record host =
  Environ :: "string list"
  Run :: "string \<Rightarrow> string list option \<Rightarrow> string \<Rightarrow> string list \<Rightarrow> fs \<Rightarrow> error option \<times> fs"
  registeredCharmInfo :: "string \<Rightarrow> string \<Rightarrow> error + charmInfo"
  ReadMeta :: "string \<Rightarrow> error + meta"
  MarshalMeta :: "meta \<Rightarrow> error + string"
  MarshalConfig :: "config \<Rightarrow> error + string"
  ReadCharmDir :: "fs \<Rightarrow> string \<Rightarrow> error option"
  Quote :: "string \<Rightarrow> string"

text \<open>\<open>os.Getenv\<close>: the value of the first entry of the environment with the key, or empty.\<close>

definition Getenv :: "string list \<Rightarrow> string \<Rightarrow> string" where
  "Getenv env key =
     (case find (\<lambda>e. HasPrefix e (key @ ''='')) env of
        None \<Rightarrow> []
      | Some e \<Rightarrow> drop (length key + 1) e)"

subsection \<open>Constants and templates\<close>

abbreviation TAB :: string where "TAB \<equiv> [CHR 0x09]"
abbreviation BSL :: string where "BSL \<equiv> [CHR 0x5C]"

definition unlines :: "string list \<Rightarrow> string" where
  "unlines ls = concat (map (\<lambda>l. l @ ''\<newline>'') ls)"

definition hookPackage :: string where "hookPackage = ''github.com/juju/gocharm/hook''"
definition autogenMessage :: string where
  "autogenMessage = ''This file is automatically generated. Do not edit.''"
definition godepPath :: string where "godepPath = ''github.com/tools/godep''"
definition yamlAutogenComment :: string where
  "yamlAutogenComment = ''# '' @ autogenMessage @ ''\<newline>''"
definition listSep :: string where "listSep = '':''"

record templateParams =
  tpAutogenMessage :: string
  tpCharmPackage :: string
  tpHookPackage :: string

definition hookMainCode :: "(string \<Rightarrow> string) \<Rightarrow> templateParams \<Rightarrow> string" where
  \<open>hookMainCode quote p = unlines
    [[],
     ''// '' @ tpAutogenMessage p,
     [],
     ''package main'',
     [],
     ''import ('',
     TAB @ ''"fmt"'',
     TAB @ ''"os"'',
     TAB @ ''charm '' @ quote (tpCharmPackage p),
     TAB @ quote (tpHookPackage p),
     '')'',
     [],
     ''func nop() error {'',
     TAB @ ''return nil'',
     ''}'',
     [],
     ''func main() {'',
     TAB @ ''r := hook.NewRegistry()'',
     TAB @ ''charm.RegisterHooks(r)'',
     TAB @ ''hook.RegisterMainHooks(r)'',
     TAB @ ''ctxt, state, err := hook.NewContextFromEnvironment(r)'',
     TAB @ ''if err != nil {'',
     TAB @ TAB @ ''fatalf("cannot create context: %v", err)'',
     TAB @ ''}'',
     TAB @ ''defer ctxt.Close()'',
     TAB @ ''if err := hook.Main(r, ctxt, state); err != nil {'',
     TAB @ TAB @ ''fatalf("%v", err)'',
     TAB @ ''}'',
     ''}'',
     [],
     ''func fatalf(f string, a ...interface{}) {'',
     TAB @ ''fmt.Fprintf(os.Stderr, "runhook: %s'' @ BSL @ ''n", fmt.Sprintf(f, a...))'',
     TAB @ ''os.Exit(1)'',
     ''}'']\<close>

definition generateCode :: "host \<Rightarrow> string \<Rightarrow> string" where
  "generateCode h charmPackage =
     hookMainCode (Quote h)
       \<lparr>tpAutogenMessage = autogenMessage, tpCharmPackage = charmPackage,
        tpHookPackage = hookPackage\<rparr>"

definition compileScript :: string where
  \<open>compileScript = unlines
    [''#!/bin/sh'',
     ''set -e'',
     ''if test -z "$CHARM_DIR"; then'',
     TAB @ ''echo CHARM_DIR not set >&2'',
     TAB @ ''exit 2'',
     ''fi'',
     ''export PATH="$CHARM_DIR/bin:$PATH"'',
     ''cd "$CHARM_DIR/src/runhook"'',
     ''export GOPATH="$CHARM_DIR:$(godep path)"'',
     ''go install'']\<close>

text \<open>
  The hook stub. \<open>text/template\<close> copies the text between the actions as it is, newlines
  included, and writes a string field without quoting it.
\<close>

record hookStubParams =
  Source :: bool
  HookName :: string
  GodepPath :: string

definition hookStubTemplate :: "hookStubParams \<Rightarrow> string" where
  \<open>hookStubTemplate p =
     unlines [''#!/bin/sh'', ''set -ex'']
     @ (if HookName p = ''install'' then
          unlines
           [[],
            ''apt-get '' @ [CHR 0x27] @ ''--option=Dpkg::Options::=--force-confold'' @ [CHR 0x27]
              @ ''  '' @ [CHR 0x27] @ ''--option=Dpkg::options::=--force-unsafe-io'' @ [CHR 0x27]
              @ '' --assume-yes --quiet install golang git mercurial'',
            [],
            ''if test -e "$CHARM_DIR/bin/runhook"; then'',
            TAB @ ''# the binary has been pre-compiled; no need to compile again.'',
            TAB @ ''exit 0'',
            ''fi'',
            ''export GOPATH="$CHARM_DIR"'',
            ''go get '' @ GodepPath p,
            [],
            ''"$CHARM_DIR/compile"'',
            ''"$CHARM_DIR/bin/runhook" install'']
        else if Source p then
          unlines
           [[],
            ''if test -e "$CHARM_DIR/compile-always"; then'',
            TAB @ ''"$CHARM_DIR/compile"'',
            ''fi'']
        else [])
     @ unlines [[], ''$CHARM_DIR/bin/runhook '' @ HookName p]\<close>

subsection \<open>The builder\<close>

text \<open>\<open>build.Package\<close>, of which the builder reads the import path and the directory.\<close>

record package =
  ImportPath :: string
  pkgDir :: string

record buildCharmParams =
  pkg :: package
  charmDir :: string
  tempDir :: string
  source :: bool

definition hookStub :: "buildCharmParams \<Rightarrow> string \<Rightarrow> string" where
  "hookStub b hookName =
     hookStubTemplate \<lparr>Source = source b, HookName = hookName, GodepPath = godepPath\<rparr>"

text \<open>The loop of \<open>writeHooks\<close>: one \<open>ioutil.WriteFile\<close> with mode 0755 for each hook name.\<close>

fun writeHooks_loop :: "buildCharmParams \<Rightarrow> string \<Rightarrow> string list \<Rightarrow> fs \<Rightarrow> error option \<times> fs" where
  "writeHooks_loop b hookDir [] s = (None, s)"
| "writeHooks_loop b hookDir (hookName # rest) s =
     (case WriteFile (Join [hookDir, hookName]) (hookStub b hookName) 493 s of
        (Some e, s') \<Rightarrow> (Some (Wrap e), s')
      | (None, s') \<Rightarrow> writeHooks_loop b hookDir rest s')"

definition writeHooks :: "buildCharmParams \<Rightarrow> string list \<Rightarrow> fs \<Rightarrow> error option \<times> fs" where
  "writeHooks b hooks s =
     (let hookDir = Join [charmDir b, ''hooks''] in
      orReturn (MkdirAll hookDir 511 s) (\<lambda>e. Wrapf e ''failed to make hooks directory'' []) (\<lambda>s.
      orReturn (ReadDir hookDir s) Wrap (\<lambda>s.
      writeHooks_loop b hookDir hooks s)))"

text \<open>
  \<open>writeYAML\<close>, with the marshalling of the value as a parameter: the banner is put before
  the data and the file written with mode 0666.
\<close>

definition writeYAML :: "('a \<Rightarrow> error + string) \<Rightarrow> string \<Rightarrow> 'a \<Rightarrow> fs \<Rightarrow> error option \<times> fs" where
  "writeYAML marshal file val s =
     (case marshal val of
        Inl e \<Rightarrow> (Some (Wrapf e ''cannot marshal YAML'' []), s)
      | Inr data \<Rightarrow> orReturn (WriteFile file (yamlAutogenComment @ data) 438 s) Wrap (\<lambda>s. (None, s)))"

text \<open>The loop of \<open>writeMeta\<close> over the relations, with its switch on the role.\<close>

fun fileRelations :: "meta \<Rightarrow> (string \<times> relation) list \<Rightarrow> error + meta" where
  "fileRelations m [] = Inr m"
| "fileRelations m ((name, rel) # rest) =
     (if relRole rel = RoleProvider then
        fileRelations (m\<lparr>Provides := (Provides m)(name \<mapsto> rel)\<rparr>) rest
      else if relRole rel = RoleRequirer then
        fileRelations (m\<lparr>Requires := (Requires m)(name \<mapsto> rel)\<rparr>) rest
      else if relRole rel = RolePeer then
        fileRelations (m\<lparr>Peers := (Peers m)(name \<mapsto> rel)\<rparr>) rest
      else Inl (Newf ''unknown role %q in relation'' [relRole rel]))"

text \<open>
  The metadata that \<open>writeMeta\<close> hands to \<open>writeYAML\<close>: the base metadata with the name
  set and the three maps emptied and filled from the relations.
\<close>

definition newMeta :: "buildCharmParams \<Rightarrow> meta \<Rightarrow> (string \<times> relation) list \<Rightarrow> error + meta" where
  "newMeta b base relations =
     fileRelations
       (base\<lparr>Name := Base (pkgDir (pkg b)), Provides := Map.empty, Requires := Map.empty,
             Peers := Map.empty\<rparr>)
       relations"

text \<open>
  \<open>os.Open\<close> fails on a missing file; on a directory it succeeds and the read inside
  \<open>charm.ReadMeta\<close> fails.
\<close>

definition writeMeta ::
  "host \<Rightarrow> buildCharmParams \<Rightarrow> (string \<times> relation) list \<Rightarrow> fs \<Rightarrow> error option \<times> fs" where
  "writeMeta h b relations s =
     (let file = Join [pkgDir (pkg b), ''metadata.yaml''] in
      case s file of
        None \<Rightarrow> (Some (Wrap (PathError ''open'' file)), s)
      | Some n \<Rightarrow>
          (case (case n of Directory \<Rightarrow> Inl (PathError ''read'' file)
                         | RegFile data perm \<Rightarrow> ReadMeta h data) of
             Inl e \<Rightarrow> (Some (Wrapf e ''cannot read metadata.yaml from %q'' [pkgDir (pkg b)]), s)
           | Inr base \<Rightarrow>
               (case newMeta b base relations of
                  Inl e \<Rightarrow> (Some e, s)
                | Inr m \<Rightarrow>
                    orReturn (writeYAML (MarshalMeta h) (Join [charmDir b, ''metadata.yaml'']) m s)
                      (\<lambda>e. Wrapf e ''cannot write metadata.yaml'' []) (\<lambda>s. (None, s)))))"

definition writeConfig ::
  "host \<Rightarrow> buildCharmParams \<Rightarrow> (string \<times> opt) list \<Rightarrow> fs \<Rightarrow> error option \<times> fs" where
  "writeConfig h b cfg s =
     (let configPath = Join [charmDir b, ''config.yaml''] in
      if length cfg = 0 then (None, s)
      else orReturn (writeYAML (MarshalConfig h) configPath \<lparr>Options = cfg\<rparr> s)
             (\<lambda>e. Wrapf e ''cannot write config.yaml'' []) (\<lambda>s. (None, s)))"

definition isExecNotFound :: "error \<Rightarrow> bool" where
  "isExecNotFound err = (case err of ExecError name e \<Rightarrow> e = ErrNotFound | _ \<Rightarrow> False)"

text \<open>
  \<open>vendorDeps\<close>. The removal of \<open>.git\<close> is deferred once \<open>git init\<close> has succeeded, so it
  runs on every return after that, the panic of \<open>setenv\<close> included.
\<close>

definition vendorDeps :: "host \<Rightarrow> buildCharmParams \<Rightarrow> fs \<Rightarrow> error option \<times> fs" where
  "vendorDeps h b s =
     (let dir = Join [charmDir b, ''src'', ''runhook''] in
      case Run h dir None ''git'' [''init''] s of
        (Some e, s1) \<Rightarrow> (Some (Wrapf e ''cannot git init directory'' []), s1)
      | (None, s1) \<Rightarrow>
          deferred (RemoveAll (Join [dir, ''.git'']))
            (case setenv (Environ h)
                    (''GOPATH='' @ Getenv (Environ h) ''GOPATH'' @ listSep @ charmDir b) of
               Inl p \<Rightarrow> (Some p, s1)
             | Inr env \<Rightarrow>
                 (case Run h dir (Some env) ''godep'' [''save''] s1 of
                    (Some e, s2) \<Rightarrow>
                      (if isExecNotFound e
                       then (Some (Newf ''godep executable not found; get it with: go get %s''
                                     [godepPath]), s2)
                       else (Some (Wrap e), s2))
                  | (None, s2) \<Rightarrow> (None, s2))))"

text \<open>The environment that \<open>compile\<close> hands to \<open>go build\<close>.\<close>

definition compile_env :: "string list \<Rightarrow> bool \<Rightarrow> error + string list" where
  "compile_env environ crossCompile =
     (if crossCompile then
        (case setenv environ ''CGOENABLED=false'' of
           Inl p \<Rightarrow> Inl p
         | Inr env1 \<Rightarrow>
             (case setenv env1 ''GOARCH=amd64'' of
                Inl p \<Rightarrow> Inl p
              | Inr env2 \<Rightarrow> setenv env2 ''GOOS=linux''))
      else Inr environ)"

definition compile ::
  "host \<Rightarrow> string \<Rightarrow> string \<Rightarrow> string \<Rightarrow> bool \<Rightarrow> fs \<Rightarrow> error option \<times> fs" where
  "compile h goFile exeFile mainCode crossCompile s =
     (case compile_env (Environ h) crossCompile of
        Inl p \<Rightarrow> (Some p, s)
      | Inr env \<Rightarrow>
          orReturn (MkdirAll (Dir goFile) 511 s) Wrap (\<lambda>s.
          orReturn (MkdirAll (Dir exeFile) 511 s) Wrap (\<lambda>s.
          orReturn (WriteFile goFile mainCode 438 s) Wrap (\<lambda>s.
          orReturn (Run h [] (Some env) ''go'' [''build'', ''-o'', exeFile, goFile] s)
            (\<lambda>e. Wrapf e ''failed to build'' []) (\<lambda>s. (None, s))))))"

definition buildCharm :: "host \<Rightarrow> buildCharmParams \<Rightarrow> fs \<Rightarrow> error option \<times> fs" where
  "buildCharm h p s =
     (let code = generateCode h (ImportPath (pkg p));
          exe = (if source p then Join [tempDir p, ''runhook'']
                 else Join [charmDir p, ''bin'', ''runhook'']);
          goFile = Join [charmDir p, ''src'', ''runhook'', ''runhook.go'']
      in
      orReturn (compile h goFile exe code True s)
        (\<lambda>e. Wrapf e ''cannot build hooks main package'' []) (\<lambda>s.
      if \<not> Stat exe s then (Some (New ''runhook command not built''), s)
      else case registeredCharmInfo h (ImportPath (pkg p)) (tempDir p) of
        Inl e \<Rightarrow> (Some (Wrap e), s)
      | Inr info \<Rightarrow>
          orReturn (writeHooks p (Hooks info) s)
            (\<lambda>e. Wrapf e ''cannot write hooks to charm'' []) (\<lambda>s.
          orReturn (writeMeta h p (Relations info) s)
            (\<lambda>e. Wrapf e ''cannot write metadata.yaml'' []) (\<lambda>s.
          orReturn (writeConfig h p (Config info) s)
            (\<lambda>e. Wrapf e ''cannot write config.yaml'' []) (\<lambda>s.
          case ReadCharmDir h s (charmDir p) of
            Some e \<Rightarrow> (Some (Wrapf e (''charm will not read correctly; we'' @ [CHR 0x27]
                         @ ''ve broken it, sorry'') []), s)
          | None \<Rightarrow>
              if source p then
                orReturn (vendorDeps h p s) (\<lambda>e. Wrapf e ''cannot get dependencies'' []) (\<lambda>s.
                orReturn (WriteFile (Join [charmDir p, ''compile'']) compileScript 493 s) Wrap
                  (\<lambda>s. (None, s)))
              else (None, s))))))"

subsection \<open>What the stub does when the shell runs it\<close>

text \<open>
  The stub is a \<open>/bin/sh\<close> script. Of the shell, the stub uses comments, simple commands,
  \<open>if test -e "path"; then ... fi\<close> without nesting or \<open>else\<close>, and \<open>exit\<close>. \<open>sh_exec\<close> reads
  the lines of a script in order and returns the command lines that are executed, the
  leading blanks removed, when every command succeeds (under \<open>set -e\<close> a failing command
  ends the script). Its first argument says which of the tested paths exist; the second
  is true inside an \<open>if\<close> whose test failed.
\<close>

fun split_lines :: "string \<Rightarrow> string list" where
  "split_lines [] = [[]]"
| "split_lines (c # cs) =
     (if c = CHR ''\<newline>'' then [] # split_lines cs
      else (case split_lines cs of [] \<Rightarrow> [[c]] | x # xs \<Rightarrow> (c # x) # xs))"

definition test_path :: "string \<Rightarrow> string" where
  "test_path w = takeWhile (\<lambda>c. c \<noteq> CHR 0x22) (drop 1 (dropWhile (\<lambda>c. c \<noteq> CHR 0x22) w))"

fun sh_exec :: "(string \<Rightarrow> bool) \<Rightarrow> bool \<Rightarrow> string list \<Rightarrow> string list" where
  "sh_exec exist skip [] = []"
| "sh_exec exist skip (l # ls) =
     (let w = dropWhile (\<lambda>c. c = CHR 0x09 \<or> c = CHR '' '') l in
      if w = ''fi'' then sh_exec exist False ls
      else if skip then sh_exec exist skip ls
      else if w = [] \<or> hd w = CHR ''#'' then sh_exec exist skip ls
      else if HasPrefix w ''if test -e '' then sh_exec exist (\<not> exist (test_path w)) ls
      else if HasPrefix w ''exit '' then []
      else w # sh_exec exist skip ls)"

definition run_stub :: "(string \<Rightarrow> bool) \<Rightarrow> string \<Rightarrow> string list" where
  "run_stub exist script = sh_exec exist False (split_lines script)"

subsection \<open>What the Go toolchain reads from its environment\<close>

text \<open>
  \<open>go build\<close> takes the target system from \<open>GOOS\<close>, the target architecture from \<open>GOARCH\<close>
  and the use of cgo from \<open>CGO_ENABLED\<close>, which is \<open>0\<close> when cgo is disabled. \<open>LookupEnv\<close> is
  the value of the first entry with the key.
\<close>

definition LookupEnv :: "string list \<Rightarrow> string \<Rightarrow> string option" where
  "LookupEnv env key =
     map_option (drop (length key + 1)) (find (\<lambda>e. HasPrefix e (key @ ''='')) env)"

definition cgo_disabled :: "string list \<Rightarrow> bool" where
  "cgo_disabled env = (LookupEnv env ''CGO_ENABLED'' = Some ''0'')"

subsection \<open>The sections of the metadata, as the claim words them\<close>

text \<open>
  A role is known when it is one of the three role constants; \<open>filed role rels\<close> is the
  section of a role: the relations of \<open>rels\<close> with that role, by name.
\<close>

definition known_role :: "string \<Rightarrow> bool" where
  "known_role role = (role = RoleProvider \<or> role = RoleRequirer \<or> role = RolePeer)"

definition filed :: "string \<Rightarrow> (string \<times> relation) list \<Rightarrow> string \<rightharpoonup> relation" where
  "filed role rels name =
     (case map_of rels name of
        None \<Rightarrow> None
      | Some r \<Rightarrow> if relRole r = role then Some r else None)"

subsection \<open>Package yaml: the text of a configuration\<close>

text \<open>
  Modelled from the spec: the round trip of the spec is \<open>parse(serialize(config))\<close>, and
  both functions belong to the YAML library (gopkg.in/yaml.v1), which is outside this
  repository. This is the YAML that \<open>Marshal\<close> writes for a \<open>charm.Config\<close> and that
  \<open>Unmarshal\<close> reads: a block mapping \<open>options\<close> of the option names, each with the fields
  \<open>type\<close>, \<open>description\<close> and \<open>default\<close> (the field names in lower case), indented by two
  spaces a level; \<open>options: {}\<close> when there is no option. The options are written in the
  order of the list.

  A string is written plain when it begins with a letter, has only letters, digits,
  blanks and \<open>_-./\<close>, does not end with a blank and is not a word that YAML reads as a
  boolean or null; any other string is written between double quotes, with \<open>"\<close>, the
  backslash and the newline escaped. A default is \<open>null\<close>, \<open>true\<close>, \<open>false\<close>, a decimal
  number or a string. The reader skips blank lines and comment lines.
\<close>

definition letters :: string where
  "letters = ''abcdefghijklmnopqrstuvwxyzABCDEFGHIJKLMNOPQRSTUVWXYZ''"

definition digit_chars :: string where
  "digit_chars = ''0123456789''"

definition plain_chars :: string where
  "plain_chars = letters @ digit_chars @ '' _-./''"

definition reserved :: "string list" where
  "reserved =
     [''y'', ''Y'', ''yes'', ''Yes'', ''YES'', ''n'', ''N'', ''no'', ''No'', ''NO'',
      ''true'', ''True'', ''TRUE'', ''false'', ''False'', ''FALSE'',
      ''on'', ''On'', ''ON'', ''off'', ''Off'', ''OFF'', ''null'', ''Null'', ''NULL'']"

definition plain_safe :: "string \<Rightarrow> bool" where
  "plain_safe s =
     (case s of
        [] \<Rightarrow> False
      | c # cs \<Rightarrow> c \<in> set letters \<and> list_all (\<lambda>x. x \<in> set plain_chars) s \<and>
                 last s \<noteq> CHR '' '' \<and> s \<notin> set reserved)"

fun escape :: "string \<Rightarrow> string" where
  "escape [] = []"
| "escape (c # cs) =
     (if c = CHR 0x22 then [CHR 0x5C, CHR 0x22]
      else if c = CHR 0x5C then [CHR 0x5C, CHR 0x5C]
      else if c = CHR ''\<newline>'' then [CHR 0x5C, CHR ''n'']
      else [c]) @ escape cs"

fun unescape :: "string \<Rightarrow> string option" where
  "unescape [] = Some []"
| "unescape [c] = (if c = CHR 0x5C \<or> c = CHR 0x22 then None else Some [c])"
| "unescape (c # d # ds) =
     (if c = CHR 0x5C then
        (if d = CHR ''n'' then map_option ((#) (CHR ''\<newline>'')) (unescape ds)
         else if d = CHR 0x22 \<or> d = CHR 0x5C then map_option ((#) d) (unescape ds)
         else None)
      else if c = CHR 0x22 then None
      else map_option ((#) c) (unescape (d # ds)))"

definition encode_string :: "string \<Rightarrow> string" where
  "encode_string s = (if plain_safe s then s else [CHR 0x22] @ escape s @ [CHR 0x22])"

definition decode_string :: "string \<Rightarrow> string option" where
  "decode_string t =
     (if take 1 t = [CHR 0x22] then
        (if 2 \<le> length t \<and> last t = CHR 0x22 then unescape (butlast (drop 1 t)) else None)
      else if plain_safe t then Some t else None)"

text \<open>Decimal numbers.\<close>

function show_nat :: "nat \<Rightarrow> string" where
  "show_nat n = (if n < 10 then [digit_chars ! n] else show_nat (n div 10) @ [digit_chars ! (n mod 10)])"
  by pat_completeness auto
termination
  by (relation "measure id") auto

declare show_nat.simps [simp del]

fun read_digits :: "nat \<Rightarrow> string \<Rightarrow> nat option" where
  "read_digits acc [] = Some acc"
| "read_digits acc (c # cs) =
     (case Index digit_chars c of
        None \<Rightarrow> None
      | Some d \<Rightarrow> read_digits (10 * acc + d) cs)"

definition read_nat :: "string \<Rightarrow> nat option" where
  "read_nat t = (if t = [] then None else read_digits 0 t)"

definition show_int :: "int \<Rightarrow> string" where
  "show_int i = (if i < 0 then CHR ''-'' # show_nat (nat (- i)) else show_nat (nat i))"

definition read_int :: "string \<Rightarrow> int option" where
  "read_int t =
     (case t of
        [] \<Rightarrow> None
      | c # cs \<Rightarrow> if c = CHR ''-'' then map_option (\<lambda>n. - int n) (read_nat cs)
                 else map_option int (read_nat t))"

definition encode_default :: "default_value \<Rightarrow> string" where
  "encode_default v =
     (case v of
        NoDefault \<Rightarrow> ''null''
      | DBool b \<Rightarrow> (if b then ''true'' else ''false'')
      | DInt i \<Rightarrow> show_int i
      | DString s \<Rightarrow> encode_string s)"

definition decode_default :: "string \<Rightarrow> default_value option" where
  "decode_default t =
     (if t = ''null'' then Some NoDefault
      else if t = ''true'' then Some (DBool True)
      else if t = ''false'' then Some (DBool False)
      else case read_int t of
             Some i \<Rightarrow> Some (DInt i)
           | None \<Rightarrow> map_option DString (decode_string t))"

text \<open>The document.\<close>

definition option_lines :: "string \<times> opt \<Rightarrow> string list" where
  "option_lines kv =
     (case kv of (k, v) \<Rightarrow>
        [''  '' @ encode_string k @ '':'',
         ''    type: '' @ encode_string (optType v),
         ''    description: '' @ encode_string (optDescription v),
         ''    default: '' @ encode_default (optDefault v)])"

definition marshalConfig :: "config \<Rightarrow> error + string" where
  "marshalConfig c =
     Inr (if Options c = [] then unlines [''options: {}'']
          else unlines (''options:'' # concat (map option_lines (Options c))))"

definition strip_prefix :: "string \<Rightarrow> string \<Rightarrow> string option" where
  "strip_prefix pfx l = (if HasPrefix l pfx then Some (drop (length pfx) l) else None)"

definition key_line :: "string \<Rightarrow> string option" where
  "key_line l =
     (case strip_prefix ''  '' l of
        None \<Rightarrow> None
      | Some r \<Rightarrow> if r \<noteq> [] \<and> last r = CHR '':'' then decode_string (butlast r) else None)"

definition field_line :: "string \<Rightarrow> string \<Rightarrow> string option" where
  "field_line name l =
     (case strip_prefix (''    '' @ name @ '': '') l of
        None \<Rightarrow> None
      | Some r \<Rightarrow> decode_string r)"

definition default_line :: "string \<Rightarrow> default_value option" where
  "default_line l =
     (case strip_prefix ''    default: '' l of
        None \<Rightarrow> None
      | Some r \<Rightarrow> decode_default r)"

fun parse_options :: "string list \<Rightarrow> (string \<times> opt) list option" where
  "parse_options [] = Some []"
| "parse_options (k # t # d # v # rest) =
     (case key_line k of None \<Rightarrow> None | Some key \<Rightarrow>
      case field_line ''type'' t of None \<Rightarrow> None | Some ty \<Rightarrow>
      case field_line ''description'' d of None \<Rightarrow> None | Some de \<Rightarrow>
      case default_line v of None \<Rightarrow> None | Some dv \<Rightarrow>
      case parse_options rest of None \<Rightarrow> None | Some opts \<Rightarrow>
        Some ((key, \<lparr>optType = ty, optDescription = de, optDefault = dv\<rparr>) # opts))"
| "parse_options ls = None"

definition blank_or_comment :: "string \<Rightarrow> bool" where
  "blank_or_comment l =
     (case dropWhile (\<lambda>c. c = CHR '' '') l of [] \<Rightarrow> True | c # cs \<Rightarrow> c = CHR ''#'')"

definition unmarshalConfig :: "string \<Rightarrow> error + config" where
  "unmarshalConfig text =
     (case filter (\<lambda>l. \<not> blank_or_comment l) (split_lines text) of
        [] \<Rightarrow> Inl (LibError ''empty document'')
      | first # rest \<Rightarrow>
          if first = ''options: {}'' \<and> rest = [] then Inr \<lparr>Options = []\<rparr>
          else if first = ''options:'' then
            (case parse_options rest of
               None \<Rightarrow> Inl (LibError ''cannot unmarshal'')
             | Some opts \<Rightarrow> Inr \<lparr>Options = opts\<rparr>)
          else Inl (LibError ''cannot unmarshal''))"

subsection \<open>Reading a written descriptor back\<close>

text \<open>
  Modelled from the spec: the consumer of the bundle parses \<open>config.yaml\<close> with a library
  that is outside this repository. \<open>readConfigFile parse\<close> hands the contents of the file
  to the parser \<open>parse\<close>.
\<close>

definition readConfigFile :: "(string \<Rightarrow> error + config) \<Rightarrow> fs \<Rightarrow> string \<Rightarrow> error + config" where
  "readConfigFile parse s file =
     (case s file of
        Some (RegFile data perm) \<Rightarrow> parse data
      | _ \<Rightarrow> Inl (PathError ''open'' file))"

text \<open>No path of the first file system is missing from the second.\<close>

definition keeps :: "fs \<Rightarrow> fs \<Rightarrow> bool" where
  "keeps s s' = (\<forall>path. s path \<noteq> None \<longrightarrow> s' path \<noteq> None)"

subsection \<open>A build to run the definitions on\<close>

text \<open>
  The scenario of the spec: a package with the hooks \<open>install\<close>, \<open>start\<close> and
  \<open>config-changed\<close>, the provider relation \<open>db\<close> with interface \<open>mysql\<close> and the boolean
  option \<open>debug\<close>. Its source directory is \<open>wordpress\<close> and the charm is written to the
  directory \<open>blog\<close>. On this host \<open>go build\<close> writes the executable named after \<open>-o\<close>,
  \<open>git init\<close> makes \<open>.git\<close>, \<open>godep save\<close> makes \<open>Godeps\<close>, and the libraries are small
  stand-ins: the metadata is its name line and the configuration is marshalled as above. The file
  system has the hand-written \<open>metadata.yaml\<close> of the package and an empty charm
  directory.
\<close>

definition demo :: buildCharmParams where
  "demo =
     \<lparr>pkg = \<lparr>ImportPath = ''example.com/wordpress'', pkgDir = ''/go/src/example.com/wordpress''\<rparr>,
      charmDir = ''/charms/trusty/blog'', tempDir = ''/tmp/build'', source = False\<rparr>"

definition demo_relation :: "string \<Rightarrow> relation" where
  "demo_relation role =
     \<lparr>relName = ''db'', relRole = role, relInterface = ''mysql'', relScope = ''global''\<rparr>"

definition demo_config :: "(string \<times> opt) list" where
  "demo_config =
     [(''debug'', \<lparr>optType = ''boolean'', optDescription = ''Debug mode'', optDefault = DBool False\<rparr>)]"

definition demo_info :: charmInfo where
  "demo_info =
     \<lparr>Hooks = [''install'', ''start'', ''config-changed''],
      Relations = [(''db'', demo_relation ''provider'')],
      Config = demo_config\<rparr>"

definition demo_run ::
  "string \<Rightarrow> string list option \<Rightarrow> string \<Rightarrow> string list \<Rightarrow> fs \<Rightarrow> error option \<times> fs" where
  "demo_run dir env cmd args s =
     (if cmd = ''go'' then
        (case args of
           [build, flag, exe, goFile] \<Rightarrow> (None, s(exe \<mapsto> RegFile ''ELF'' 493))
         | _ \<Rightarrow> (Some (ExitError ''exit status 2''), s))
      else if cmd = ''git'' then (None, s(Join [dir, ''.git''] \<mapsto> Directory))
      else if cmd = ''godep'' then (None, s(Join [dir, ''Godeps''] \<mapsto> Directory))
      else (Some (ExecError cmd ErrNotFound), s))"

definition demo_host :: host where
  "demo_host =
     \<lparr>Environ = [''HOME=/root'', ''GOPATH=/go''],
      Run = demo_run,
      registeredCharmInfo = (\<lambda>importPath tmp. Inr demo_info),
      ReadMeta =
        (\<lambda>data. if take 6 data = ''name: ''
                then Inr \<lparr>Name = takeWhile (\<lambda>c. c \<noteq> CHR ''\<newline>'') (drop 6 data),
                          Summary = ''A blog'', Description = ''A blog engine'',
                          Provides = [''old'' \<mapsto> demo_relation ''provider''],
                          Requires = Map.empty, Peers = Map.empty\<rparr>
                else Inl (LibError ''bad metadata'')),
      MarshalMeta = (\<lambda>m. Inr (''name: '' @ Name m @ ''\<newline>'')),
      MarshalConfig = marshalConfig,
      ReadCharmDir =
        (\<lambda>s dir. if s (Join [dir, ''metadata.yaml'']) = None
                 then Some (LibError ''no metadata'') else None),
      Quote = (\<lambda>x. [CHR 0x22] @ x @ [CHR 0x22])\<rparr>"

definition demo_fs :: fs where
  "demo_fs =
     Map.empty(''/go/src/example.com/wordpress/metadata.yaml'' \<mapsto>
                 RegFile ''name: handwritten\<newline>'' 420,
               ''/charms/trusty/blog'' \<mapsto> Directory)"

text \<open>
  Three more hosts: one without \<open>godep\<close> on the execution path, one whose \<open>godep save\<close>
  runs and fails, and one whose package registers a relation with the role \<open>bogus\<close>.
\<close>

definition no_godep_host :: host where
  "no_godep_host =
     demo_host\<lparr>Run := (\<lambda>dir env cmd args s.
        if cmd = ''godep'' then (Some (ExecError ''godep'' ErrNotFound), s)
        else demo_run dir env cmd args s)\<rparr>"

definition failing_godep_host :: host where
  "failing_godep_host =
     demo_host\<lparr>Run := (\<lambda>dir env cmd args s.
        if cmd = ''godep'' then (Some (ExitError ''exit status 1''), s)
        else demo_run dir env cmd args s)\<rparr>"

definition bogus_role_host :: host where
  "bogus_role_host =
     demo_host\<lparr>registeredCharmInfo := (\<lambda>importPath tmp.
        Inr (demo_info\<lparr>Relations := [(''db'', demo_relation ''bogus'')]\<rparr>))\<rparr>"

text \<open>A hook script that an operator has edited, in a charm directory built before.\<close>

definition edited_hook :: string where
  "edited_hook = ''#!/bin/sh\<newline># edited by hand\<newline>$CHARM_DIR/bin/runhook install --verbose\<newline>''"

definition edited_fs :: fs where
  "edited_fs =
     demo_fs(''/charms/trusty/blog/hooks'' \<mapsto> Directory,
             ''/charms/trusty/blog/hooks/install'' \<mapsto> RegFile edited_hook 493)"

text \<open>A configuration whose strings need quoting: a colon, quotes, a newline, a word that
  YAML reads as a boolean, and a negative number.\<close>

definition odd_config :: "(string \<times> opt) list" where
  \<open>odd_config =
     [(''log: level'', \<lparr>optType = ''int'', optDescription = ''say "how" much'' @ ''\<newline>'' @ ''# to log'',
                         optDefault = DInt (- 42)\<rparr>),
      (''mode'', \<lparr>optType = ''string'', optDescription = [], optDefault = DString ''true''\<rparr>),
      (''name'', \<lparr>optType = ''string'', optDescription = ''Site name'', optDefault = NoDefault\<rparr>)]\<close>

section \<open>Properties\<close>

subsection \<open>setenv\<close>

lemma Index_None_iff: "Index s c = None \<longleftrightarrow> c \<notin> set s"
  by (induction s) auto

lemma Index_take: "Index s c = Some i \<Longrightarrow> take (i + 1) s = takeWhile (\<lambda>x. x \<noteq> c) s @ [c]"
  by (induction s arbitrary: i) (auto split: if_splits)

lemma setenv_loop_None: "setenv_loop pfx entry env = None \<longleftrightarrow> (\<forall>e \<in> set env. \<not> HasPrefix e pfx)"
  by (induction env) auto

lemma setenv_loop_Some:
  "setenv_loop pfx entry env = Some env' \<Longrightarrow>
     \<exists>i < length env. HasPrefix (env ! i) pfx \<and> (\<forall>j < i. \<not> HasPrefix (env ! j) pfx)
        \<and> env' = env[i := entry]"
proof (induction env arbitrary: env')
  case Nil
  then show ?case by simp
next
  case (Cons e es)
  show ?case
  proof (cases "HasPrefix e pfx")
    case True
    with Cons.prems have "env' = (e # es)[0 := entry]" by simp
    with True show ?thesis by (intro exI [of _ 0]) simp
  next
    case False
    with Cons.prems obtain es' where es': "setenv_loop pfx entry es = Some es'" "env' = e # es'"
      by auto
    from Cons.IH [OF es'(1)] obtain i where i: "i < length es" "HasPrefix (es ! i) pfx"
      "\<forall>j < i. \<not> HasPrefix (es ! j) pfx" "es' = es[i := entry]" by blast
    have "\<forall>j < Suc i. \<not> HasPrefix ((e # es) ! j) pfx"
      using False i(3) by (auto simp: less_Suc_eq_0_disj)
    with i es'(2) show ?thesis by (intro exI [of _ "Suc i"]) simp
  qed
qed

text \<open>
  C10. For an entry with an \<open>=\<close>, \<open>setenv\<close> returns a list that contains the entry: the
  environment with its first element that begins with the entry's key and \<open>=\<close> replaced
  by the entry and every other element as it was, or the environment with the entry
  appended when no element begins so. It panics exactly when the entry has no \<open>=\<close>.
\<close>

theorem setenv_replaces_first_or_appends:
  "(CHR ''='' \<in> set entry \<longrightarrow>
      (\<exists>env'. setenv env entry = Inr env' \<and> entry \<in> set env' \<and>
         (if \<exists>e \<in> set env. HasPrefix e (entry_key entry @ ''='')
          then \<exists>i < length env. HasPrefix (env ! i) (entry_key entry @ ''='') \<and>
                 (\<forall>j < i. \<not> HasPrefix (env ! j) (entry_key entry @ ''='')) \<and>
                 env' = env[i := entry]
          else env' = env @ [entry])))
   \<and> ((\<exists>msg. setenv env entry = Inl (Panic msg)) \<longleftrightarrow> CHR ''='' \<notin> set entry)
   \<and> ((\<exists>e. setenv env entry = Inl e) \<longleftrightarrow> CHR ''='' \<notin> set entry)"
proof (cases "Index entry (CHR ''='')")
  case None
  then have "CHR ''='' \<notin> set entry" by (simp add: Index_None_iff)
  with None show ?thesis by (simp add: setenv_def)
next
  case (Some i)
  then have mem: "CHR ''='' \<in> set entry"
    using Index_None_iff [of entry "CHR ''=''"] by auto
  define pfx where "pfx = entry_key entry @ ''=''"
  have pfx: "take (i + 1) entry = pfx"
    using Index_take [OF Some] by (simp add: pfx_def entry_key_def)
  show ?thesis
  proof (cases "setenv_loop pfx entry env")
    case None
    then have no: "\<forall>e \<in> set env. \<not> HasPrefix e pfx" by (simp add: setenv_loop_None)
    have "setenv env entry = Inr (env @ [entry])"
      using Some None pfx by (simp add: setenv_def)
    with no mem show ?thesis unfolding pfx_def [symmetric] by auto
  next
    case (Some env')
    from setenv_loop_Some [OF Some] obtain i' where i': "i' < length env"
      "HasPrefix (env ! i') pfx" "\<forall>j < i'. \<not> HasPrefix (env ! j) pfx" "env' = env[i' := entry]"
      by blast
    have res: "setenv env entry = Inr env'"
      using \<open>Index entry (CHR ''='') = Some i\<close> Some pfx by (simp add: setenv_def)
    have ex: "\<exists>e \<in> set env. HasPrefix e pfx" using i'(1,2) nth_mem by blast
    have "entry \<in> set env'" using i'(1,4) by (simp add: set_update_memI)
    with res ex i' mem show ?thesis unfolding pfx_def [symmetric] by auto
  qed
qed

theorem setenv_replaces_first_or_appends_witness:
  "CHR ''='' \<in> set ''GOOS=linux'' \<and>
   setenv [''HOME=/root'', ''GOOS=darwin'', ''GOOS=plan9''] ''GOOS=linux''
     = Inr [''HOME=/root'', ''GOOS=linux'', ''GOOS=plan9''] \<and>
   setenv [''HOME=/root''] ''GOOS=linux'' = Inr [''HOME=/root'', ''GOOS=linux''] \<and>
   setenv [''HOME=/root''] ''GOOS'' = Inl (Panic ''no = in environment entry'')"
  using setenv_replaces_first_or_appends [of "''GOOS=linux''" "[''HOME=/root'', ''GOOS=darwin'', ''GOOS=plan9'']"]
  by (simp add: setenv_def HasPrefix_def)

subsection \<open>What the stages of a build keep\<close>

lemma keeps_refl: "keeps s s" by (simp add: keeps_def)
lemma keeps_trans: "keeps s s1 \<Longrightarrow> keeps s1 s2 \<Longrightarrow> keeps s s2" by (simp add: keeps_def)

lemma mkdirs_keeps: "keeps s (mkdirs ds s)"
proof (induction ds arbitrary: s)
  case Nil
  show ?case by (simp add: keeps_refl)
next
  case (Cons d ds)
  have "keeps s (mkdirs ds (s(d \<mapsto> Directory)))"
    by (rule keeps_trans [OF _ Cons]) (simp add: keeps_def)
  then show ?case unfolding mkdirs.simps .
qed

lemma MkdirAll_keeps: "keeps s (snd (MkdirAll path perm s))"
  by (simp add: MkdirAll_def mkdirs_keeps keeps_refl split: option.splits)

lemma WriteFile_keeps: "keeps s (snd (WriteFile path data perm s))"
  by (simp add: WriteFile_def keeps_def split: option.splits node.splits)

lemma ReadDir_keeps: "keeps s (snd (ReadDir path s))"
  by (simp add: ReadDir_def keeps_refl)

lemma orReturn_keeps:
  assumes "keeps s (snd r)" and "\<And>s1. keeps s1 (snd (k s1))"
  shows "keeps s (snd (orReturn r w k))"
proof (cases r)
  case (Pair e s1)
  with assms(1) have 1: "keeps s s1" by simp
  show ?thesis
  proof (cases e)
    case None
    with Pair have "orReturn r w k = k s1" by (simp add: orReturn_def)
    with 1 assms(2) [of s1] show ?thesis by (auto intro: keeps_trans)
  next
    case (Some err)
    with Pair have "snd (orReturn r w k) = s1"
      by (cases err) (simp_all add: orReturn_def)
    with 1 show ?thesis by simp
  qed
qed

lemma orReturn_None:
  "fst (orReturn r w k) = None \<longleftrightarrow> fst r = None \<and> fst (k (snd r)) = None"
  by (cases r; cases "fst r") (auto simp: orReturn_def split: error.splits)

lemma orReturn_ok: "fst r = None \<Longrightarrow> orReturn r w k = k (snd r)"
  by (cases r) (simp add: orReturn_def)

lemma writeHooks_loop_keeps: "keeps s (snd (writeHooks_loop b d hooks s))"
proof (induction hooks arbitrary: s)
  case Nil
  show ?case by (simp add: keeps_refl)
next
  case (Cons n hooks)
  show ?case
  proof (cases "WriteFile (Join [d, n]) (hookStub b n) 493 s")
    case (Pair e s1)
    have 1: "keeps s s1" using WriteFile_keeps [of s "Join [d, n]" "hookStub b n" 493] Pair by simp
    show ?thesis
    proof (cases e)
      case None
      with Pair Cons [of s1] 1 show ?thesis by (auto intro: keeps_trans)
    next
      case (Some err)
      with Pair 1 show ?thesis by simp
    qed
  qed
qed

lemma writeHooks_keeps: "keeps s (snd (writeHooks b hooks s))"
  unfolding writeHooks_def Let_def
  by (intro orReturn_keeps MkdirAll_keeps ReadDir_keeps writeHooks_loop_keeps)

lemma writeYAML_keeps: "keeps s (snd (writeYAML marshal file val s))"
  unfolding writeYAML_def
  by (auto split: sum.splits intro!: orReturn_keeps WriteFile_keeps keeps_refl)

lemma writeMeta_keeps: "keeps s (snd (writeMeta h b rels s))"
  unfolding writeMeta_def Let_def
  by (auto split: sum.splits option.splits node.splits intro!: orReturn_keeps writeYAML_keeps keeps_refl)

lemma writeConfig_keeps: "keeps s (snd (writeConfig h b cfg s))"
  unfolding writeConfig_def Let_def
  by (auto intro!: orReturn_keeps writeYAML_keeps keeps_refl)

lemma Stat_keeps: "keeps s s' \<Longrightarrow> Stat path s \<Longrightarrow> Stat path s'"
  by (auto simp: keeps_def Stat_def)

subsection \<open>The path of the executable\<close>

lemma split_sep_not_Nil: "split_sep s \<noteq> []"
  by (induction s) (auto split: list.splits)

lemma split_sep_append: "split_sep (a @ CHR ''/'' # c) = split_sep a @ split_sep c"
  by (induction a) (auto split: list.splits simp: split_sep_not_Nil)

lemma clean_elems_append:
  "clean_elems rooted out (xs @ ys) = clean_elems rooted (clean_elems rooted out xs) ys"
  by (induction xs arbitrary: out) auto

lemma length_join_sep: "sum_list (map length xs) \<le> length (join_sep xs)"
  by (induction xs rule: join_sep.induct) auto

lemma Clean_bin_runhook: "10 \<le> length (Clean (c @ ''/bin/runhook''))"
proof -
  have s: "split_sep (c @ ''/bin/runhook'') = split_sep c @ [''bin'', ''runhook'']"
    using split_sep_append [of c "''bin/runhook''"] by simp
  have e: "clean_elems rooted [] (split_sep (c @ ''/bin/runhook''))
             = clean_elems rooted [] (split_sep c) @ [''bin'', ''runhook'']" for rooted
    by (simp add: s clean_elems_append)
  have "10 \<le> sum_list (map length (clean_elems rooted [] (split_sep c) @ [''bin'', ''runhook'']))"
    for rooted by simp
  then have "10 \<le> length (join_sep (clean_elems rooted [] (split_sep (c @ ''/bin/runhook''))))"
    for rooted
    unfolding e using length_join_sep order_trans by blast
  then have j: "10 \<le> length (join_sep (clean_elems True [] (split_sep (c @ ''/bin/runhook''))))"
    "10 \<le> length (join_sep (clean_elems False [] (split_sep (c @ ''/bin/runhook''))))"
    by blast+
  show ?thesis
  proof (cases "hd (c @ ''/bin/runhook'') = CHR ''/''")
    case True
    with j(1) show ?thesis by (simp add: Clean_def Let_def)
  next
    case False
    from j(2) have "join_sep (clean_elems False [] (split_sep (c @ ''/bin/runhook''))) \<noteq> []"
      by auto
    with False j(2) show ?thesis by (simp add: Clean_def Let_def)
  qed
qed

lemma exe_path_length: "10 \<le> length (Join [c, ''bin'', ''runhook''])"
proof (cases "c = []")
  case True
  then show ?thesis by (simp add: Join_def Clean_def)
next
  case False
  then have "Join [c, ''bin'', ''runhook''] = Clean (c @ ''/bin/runhook'')"
    by (simp add: Join_def)
  with Clean_bin_runhook [of c] show ?thesis by simp
qed

lemma exe_path_Stat: "Stat (Join [c, ''bin'', ''runhook'']) s \<longleftrightarrow> s (Join [c, ''bin'', ''runhook'']) \<noteq> None"
  using exe_path_length [of c] by (auto simp: Stat_def)

text \<open>
  C5, as amended. After a successful build without vendoring, the file system has an
  entry at \<open>bin/runhook\<close> under the charm directory and \<open>os.Stat\<close> finds it: the
  builder checks it after the compilation and the later stages only add files.
\<close>

theorem buildCharm_binary_present:
  assumes "\<not> source p" and "fst (buildCharm h p s) = None"
  shows "Stat (Join [charmDir p, ''bin'', ''runhook'']) (snd (buildCharm h p s)) \<and>
         snd (buildCharm h p s) (Join [charmDir p, ''bin'', ''runhook'']) \<noteq> None"
proof -
  define exe where "exe = Join [charmDir p, ''bin'', ''runhook'']"
  define goFile where "goFile = Join [charmDir p, ''src'', ''runhook'', ''runhook.go'']"
  define c where "c = compile h goFile exe (generateCode h (ImportPath (pkg p))) True s"
  define rest where "rest = (\<lambda>s.
      if \<not> Stat exe s then (Some (New ''runhook command not built''), s)
      else case registeredCharmInfo h (ImportPath (pkg p)) (tempDir p) of
        Inl e \<Rightarrow> (Some (Wrap e), s)
      | Inr info \<Rightarrow>
          orReturn (writeHooks p (Hooks info) s)
            (\<lambda>e. Wrapf e ''cannot write hooks to charm'' []) (\<lambda>s.
          orReturn (writeMeta h p (Relations info) s)
            (\<lambda>e. Wrapf e ''cannot write metadata.yaml'' []) (\<lambda>s.
          orReturn (writeConfig h p (Config info) s)
            (\<lambda>e. Wrapf e ''cannot write config.yaml'' []) (\<lambda>s.
          case ReadCharmDir h s (charmDir p) of
            Some e \<Rightarrow> (Some (Wrapf e (''charm will not read correctly; we'' @ [CHR 0x27]
                         @ ''ve broken it, sorry'') []), s)
          | None \<Rightarrow>
              if source p then
                orReturn (vendorDeps h p s) (\<lambda>e. Wrapf e ''cannot get dependencies'' []) (\<lambda>s.
                orReturn (WriteFile (Join [charmDir p, ''compile'']) compileScript 493 s) Wrap
                  (\<lambda>s. (None, s)))
              else (None, s)))))"
  have eq: "buildCharm h p s = orReturn c (\<lambda>e. Wrapf e ''cannot build hooks main package'' []) rest"
    using assms(1) unfolding buildCharm_def Let_def c_def rest_def exe_def goFile_def by simp
  from assms(2) have c: "fst c = None" and r: "fst (rest (snd c)) = None"
    by (simp_all add: eq orReturn_None)
  have res: "buildCharm h p s = rest (snd c)" using c by (simp add: eq orReturn_ok)
  have stat: "Stat exe (snd c)" using r unfolding rest_def by (auto split: if_splits)
  have "keeps (snd c) (snd (rest (snd c)))"
    unfolding rest_def using assms(1)
    by (auto split: sum.splits option.splits
          intro!: orReturn_keeps writeHooks_keeps writeMeta_keeps writeConfig_keeps keeps_refl)
  with stat have "Stat exe (snd (rest (snd c)))" by (rule Stat_keeps [rotated])
  then show ?thesis unfolding res exe_def by (simp add: exe_path_Stat)
qed


theorem buildCharm_binary_present_witness:
  "\<not> source demo \<and> fst (buildCharm demo_host demo demo_fs) = None \<and>
   Stat ''/charms/trusty/blog/bin/runhook'' (snd (buildCharm demo_host demo demo_fs)) \<and>
   snd (buildCharm demo_host demo demo_fs) ''/charms/trusty/blog/bin/runhook'' \<noteq> None"
proof -
  have a: "\<not> source demo" by (simp add: demo_def)
  have b: "fst (buildCharm demo_host demo demo_fs) = None" by code_simp
  have c: "Join [charmDir demo, ''bin'', ''runhook''] = ''/charms/trusty/blog/bin/runhook''"
    by code_simp
  from buildCharm_binary_present [OF a b] a b c show ?thesis by simp
qed

text \<open>
  C5, counterexample. With vendoring the executable is built in the scratch directory
  (\<open>/tmp/build/runhook\<close>): the build of the scenario succeeds and the charm directory
  has nothing at \<open>bin/runhook\<close>.
\<close>

theorem vendoring_build_without_bin_runhook:
  "fst (buildCharm demo_host (demo\<lparr>source := True\<rparr>) demo_fs) = None \<and>
   \<not> Stat ''/charms/trusty/blog/bin/runhook''
        (snd (buildCharm demo_host (demo\<lparr>source := True\<rparr>) demo_fs)) \<and>
   Stat ''/tmp/build/runhook'' (snd (buildCharm demo_host (demo\<lparr>source := True\<rparr>) demo_fs))"
  by code_simp

subsection \<open>The hook stubs\<close>

lemma hookStub_last_line:
  "\<exists>before. hookStub b hookName = before @ ''$CHARM_DIR/bin/runhook '' @ hookName @ ''\<newline>''"
  by (simp add: hookStub_def hookStubTemplate_def unlines_def)

text \<open>
  C3, at the failing input. In the install stub of a build without vendoring, the charm
  has the executable at \<open>bin/runhook\<close>, so the test of the stub succeeds and the stub
  leaves with \<open>exit 0\<close>: the commands that run are \<open>set -ex\<close> and \<open>apt-get\<close>, and the
  executable is never invoked.
\<close>

theorem install_stub_exits_before_runhook:
  \<open>run_stub (\<lambda>path. path = ''$CHARM_DIR/bin/runhook'') (hookStub demo ''install'')
     = [''set -ex'',
        ''apt-get '' @ [CHR 0x27] @ ''--option=Dpkg::Options::=--force-confold'' @ [CHR 0x27]
          @ ''  '' @ [CHR 0x27] @ ''--option=Dpkg::options::=--force-unsafe-io'' @ [CHR 0x27]
          @ '' --assume-yes --quiet install golang git mercurial'']\<close>
  by code_simp

lemma other_stub_runs_runhook:
  \<open>run_stub exist (hookStub demo ''start'') = [''set -ex'', ''$CHARM_DIR/bin/runhook start'']\<close>
  by (simp add: run_stub_def hookStub_def hookStubTemplate_def unlines_def demo_def HasPrefix_def)

lemma install_stub_without_binary:
  \<open>run_stub (\<lambda>path. False) (hookStub demo ''install'')
     = [''set -ex'',
        ''apt-get '' @ [CHR 0x27] @ ''--option=Dpkg::Options::=--force-confold'' @ [CHR 0x27]
          @ ''  '' @ [CHR 0x27] @ ''--option=Dpkg::options::=--force-unsafe-io'' @ [CHR 0x27]
          @ '' --assume-yes --quiet install golang git mercurial'',
        ''export GOPATH="$CHARM_DIR"'',
        ''go get github.com/tools/godep'',
        ''"$CHARM_DIR/compile"'',
        ''"$CHARM_DIR/bin/runhook" install'',
        ''$CHARM_DIR/bin/runhook install'']\<close>
  by code_simp

subsection \<open>writeHooks\<close>

text \<open>
  C1, at the failing input. The charm directory has an install hook that an operator
  edited; \<open>writeHooks\<close> with the hook \<open>install\<close> succeeds and the file holds the generated
  stub afterwards.
\<close>

theorem writeHooks_overwrites_edited_hook:
  "edited_fs ''/charms/trusty/blog/hooks/install'' = Some (RegFile edited_hook 493) \<and>
   fst (writeHooks demo [''install''] edited_fs) = None \<and>
   snd (writeHooks demo [''install''] edited_fs) ''/charms/trusty/blog/hooks/install''
     = Some (RegFile (hookStub demo ''install'') 493) \<and>
   hookStub demo ''install'' \<noteq> edited_hook"
  by code_simp

subsection \<open>writeMeta\<close>

lemma fileRelations_Name: "fileRelations m rels = Inr m' \<Longrightarrow> Name m' = Name m"
  by (induction m rels rule: fileRelations.induct) (auto split: if_splits)

lemma newMeta_Name: "newMeta b base rels = Inr m \<Longrightarrow> Name m = Base (pkgDir (pkg b))"
  by (auto simp: newMeta_def dest: fileRelations_Name)

text \<open>
  C2, at the failing input. The package is in the directory \<open>wordpress\<close> and the charm
  is written to the directory \<open>blog\<close>: the metadata written declares the name
  \<open>wordpress\<close>.
\<close>

theorem writeMeta_name_from_package_dir:
  "Base (charmDir demo) = ''blog'' \<and>
   fst (writeMeta demo_host demo (Relations demo_info) demo_fs) = None \<and>
   snd (writeMeta demo_host demo (Relations demo_info) demo_fs) ''/charms/trusty/blog/metadata.yaml''
     = Some (RegFile (yamlAutogenComment @ ''name: wordpress\<newline>'') 438)"
  by code_simp

subsection \<open>The environment of the compilation\<close>

text \<open>
  C6, at the failing input. The process has \<open>CGO_ENABLED=1\<close>; the environment of the
  cross compilation gets \<open>CGOENABLED=false\<close>, which the toolchain does not read, and
  \<open>CGO_ENABLED\<close> stays \<open>1\<close>: cgo is not disabled.
\<close>

theorem compile_env_leaves_cgo_enabled:
  "compile_env [''HOME=/root'', ''CGO_ENABLED=1''] True
     = Inr [''HOME=/root'', ''CGO_ENABLED=1'', ''CGOENABLED=false'', ''GOARCH=amd64'', ''GOOS=linux''] \<and>
   LookupEnv [''HOME=/root'', ''CGO_ENABLED=1'', ''CGOENABLED=false'', ''GOARCH=amd64'', ''GOOS=linux'']
      ''CGO_ENABLED'' = Some ''1'' \<and>
   \<not> cgo_disabled [''HOME=/root'', ''CGO_ENABLED=1'', ''CGOENABLED=false'', ''GOARCH=amd64'', ''GOOS=linux'']"
  by code_simp

lemma compile_env_unset: "compile_env environ False = Inr environ"
  by (simp add: compile_env_def)

subsection \<open>vendorDeps\<close>

lemma isExecNotFound_iff: "isExecNotFound e \<longleftrightarrow> (\<exists>name. e = ExecError name ErrNotFound)"
  by (cases e) (auto simp: isExecNotFound_def)

lemma setenv_total: "CHR ''='' \<in> set entry \<Longrightarrow> \<exists>env'. setenv env entry = Inr env'"
  by (cases "Index entry (CHR ''='')")
     (auto simp: setenv_def Index_None_iff Let_def split: option.splits)

lemma vendorDeps_env: "\<exists>env. setenv (Environ h) (''GOPATH='' @ gopath @ listSep @ dir) = Inr env"
  by (rule setenv_total) simp

text \<open>
  C8. When \<open>git init\<close> has succeeded and \<open>godep save\<close> fails, \<open>vendorDeps\<close> returns the error
  \<open>godep executable not found; get it with: go get github.com/tools/godep\<close> if the failure
  is an \<open>exec.Error\<close> with \<open>exec.ErrNotFound\<close>, which is what running a program that is not
  on the execution path gives, and the wrapped failure otherwise; the two differ.
\<close>

theorem vendorDeps_godep_missing_distinguished:
  assumes "fst (Run h (Join [charmDir b, ''src'', ''runhook'']) None ''git'' [''init''] s) = None"
    and "setenv (Environ h) (''GOPATH='' @ Getenv (Environ h) ''GOPATH'' @ listSep @ charmDir b)
           = Inr env"
    and "fst (Run h (Join [charmDir b, ''src'', ''runhook'']) (Some env) ''godep'' [''save'']
           (snd (Run h (Join [charmDir b, ''src'', ''runhook'']) None ''git'' [''init''] s)))
           = Some e"
  shows "fst (vendorDeps h b s) =
           Some (if \<exists>name. e = ExecError name ErrNotFound
                 then Newf ''godep executable not found; get it with: go get %s''
                        [''github.com/tools/godep'']
                 else Wrap e)
         \<and> Wrap e \<noteq> Newf ''godep executable not found; get it with: go get %s''
                        [''github.com/tools/godep'']"
  using assms
  by (auto simp: vendorDeps_def Let_def deferred_def isExecNotFound_iff godepPath_def
           split: prod.splits option.splits)

theorem vendorDeps_godep_missing_distinguished_witness:
  "fst (vendorDeps no_godep_host (demo\<lparr>source := True\<rparr>) demo_fs)
     = Some (Newf ''godep executable not found; get it with: go get %s''
               [''github.com/tools/godep'']) \<and>
   fst (vendorDeps failing_godep_host (demo\<lparr>source := True\<rparr>) demo_fs)
     = Some (Wrap (ExitError ''exit status 1''))"
proof -
  let ?b = "demo\<lparr>source := True\<rparr>"
  let ?env = "[''HOME=/root'', ''GOPATH=/go:/charms/trusty/blog'']"
  have g1: "fst (Run no_godep_host (Join [charmDir ?b, ''src'', ''runhook'']) None ''git''
              [''init''] demo_fs) = None"
    by code_simp
  have e1: "setenv (Environ no_godep_host)
              (''GOPATH='' @ Getenv (Environ no_godep_host) ''GOPATH'' @ listSep @ charmDir ?b)
            = Inr ?env"
    by code_simp
  have d1: "fst (Run no_godep_host (Join [charmDir ?b, ''src'', ''runhook'']) (Some ?env)
              ''godep'' [''save'']
              (snd (Run no_godep_host (Join [charmDir ?b, ''src'', ''runhook'']) None ''git''
                 [''init''] demo_fs))) = Some (ExecError ''godep'' ErrNotFound)"
    by code_simp
  have g2: "fst (Run failing_godep_host (Join [charmDir ?b, ''src'', ''runhook'']) None ''git''
              [''init''] demo_fs) = None"
    by code_simp
  have e2: "setenv (Environ failing_godep_host)
              (''GOPATH='' @ Getenv (Environ failing_godep_host) ''GOPATH'' @ listSep
                 @ charmDir ?b)
            = Inr ?env"
    by code_simp
  have d2: "fst (Run failing_godep_host (Join [charmDir ?b, ''src'', ''runhook'']) (Some ?env)
              ''godep'' [''save'']
              (snd (Run failing_godep_host (Join [charmDir ?b, ''src'', ''runhook'']) None
                 ''git'' [''init''] demo_fs))) = Some (ExitError ''exit status 1'')"
    by code_simp
  from vendorDeps_godep_missing_distinguished [OF g1 e1 d1]
       vendorDeps_godep_missing_distinguished [OF g2 e2 d2]
  show ?thesis by simp
qed

text \<open>
  C9. Once \<open>git init\<close> has succeeded, nothing is left at \<open>.git\<close> in the source tree of
  the charm, nor below it, when \<open>vendorDeps\<close> returns, with or without an error.
\<close>

theorem vendorDeps_removes_git_dir:
  assumes "fst (Run h (Join [charmDir b, ''src'', ''runhook'']) None ''git'' [''init''] s) = None"
  shows "snd (vendorDeps h b s) (Join [Join [charmDir b, ''src'', ''runhook''], ''.git'']) = None
         \<and> (\<forall>q. below (Join [Join [charmDir b, ''src'', ''runhook''], ''.git'']) q
                \<longrightarrow> snd (vendorDeps h b s) q = None)"
  using assms
  by (auto simp: vendorDeps_def Let_def deferred_def RemoveAll_def below_def
           split: prod.splits option.splits)

theorem vendorDeps_removes_git_dir_witness:
  "snd (Run demo_host ''/charms/trusty/blog/src/runhook'' None ''git'' [''init''] demo_fs)
      ''/charms/trusty/blog/src/runhook/.git'' = Some Directory \<and>
   fst (vendorDeps demo_host (demo\<lparr>source := True\<rparr>) demo_fs) = None \<and>
   snd (vendorDeps demo_host (demo\<lparr>source := True\<rparr>) demo_fs)
      ''/charms/trusty/blog/src/runhook/.git'' = None \<and>
   fst (vendorDeps failing_godep_host (demo\<lparr>source := True\<rparr>) demo_fs) \<noteq> None \<and>
   snd (vendorDeps failing_godep_host (demo\<lparr>source := True\<rparr>) demo_fs)
      ''/charms/trusty/blog/src/runhook/.git'' = None"
proof -
  let ?b = "demo\<lparr>source := True\<rparr>"
  have g1: "fst (Run demo_host (Join [charmDir ?b, ''src'', ''runhook'']) None ''git''
              [''init''] demo_fs) = None"
    by code_simp
  have g2: "fst (Run failing_godep_host (Join [charmDir ?b, ''src'', ''runhook'']) None ''git''
              [''init''] demo_fs) = None"
    by code_simp
  have p: "Join [Join [charmDir ?b, ''src'', ''runhook''], ''.git'']
             = ''/charms/trusty/blog/src/runhook/.git''"
    by code_simp
  have a: "snd (Run demo_host ''/charms/trusty/blog/src/runhook'' None ''git'' [''init''] demo_fs)
      ''/charms/trusty/blog/src/runhook/.git'' = Some Directory"
    by code_simp
  have b: "fst (vendorDeps demo_host ?b demo_fs) = None" by code_simp
  have c: "fst (vendorDeps failing_godep_host ?b demo_fs) \<noteq> None" by code_simp
  from vendorDeps_removes_git_dir [OF g1] vendorDeps_removes_git_dir [OF g2] a b c
  show ?thesis unfolding p by simp
qed

subsection \<open>Writing a file\<close>

lemma WriteFile_ok:
  "fst (WriteFile path data perm s) = None \<Longrightarrow>
     \<exists>perm'. snd (WriteFile path data perm s) = s(path \<mapsto> RegFile data perm')"
  by (auto simp: WriteFile_def split: if_splits option.splits node.splits)

lemma WriteFile_failed: "fst (WriteFile path data perm s) \<noteq> None \<Longrightarrow> snd (WriteFile path data perm s) = s"
  by (auto simp: WriteFile_def split: if_splits option.splits node.splits)

lemma WriteFile_ok_iff:
  "fst (WriteFile path data perm s) = None \<longleftrightarrow> is_dir s (Dir path) \<and> s path \<noteq> Some Directory"
  by (auto simp: WriteFile_def split: if_splits option.splits node.splits)

lemma writeYAML_ok:
  assumes "fst (writeYAML marshal file val s) = None"
  shows "\<exists>data perm. marshal val = Inr data \<and>
           snd (writeYAML marshal file val s) = s(file \<mapsto> RegFile (yamlAutogenComment @ data) perm)"
proof (cases "marshal val")
  case (Inl e)
  with assms show ?thesis by (simp add: writeYAML_def)
next
  case (Inr data)
  with assms have w: "fst (WriteFile file (yamlAutogenComment @ data) 438 s) = None"
    by (simp add: writeYAML_def orReturn_None)
  then have "writeYAML marshal file val s = (None, snd (WriteFile file (yamlAutogenComment @ data) 438 s))"
    using Inr by (simp add: writeYAML_def orReturn_ok)
  with WriteFile_ok [OF w] Inr show ?thesis by auto
qed

lemma orReturn_failed:
  "fst r \<noteq> None \<Longrightarrow> snd (orReturn r w k) = snd r"
  by (cases r; cases "fst r") (auto simp: orReturn_def split: error.splits)

lemma writeYAML_failed:
  "fst (writeYAML marshal file val s) \<noteq> None \<Longrightarrow> snd (writeYAML marshal file val s) = s"
  by (cases "marshal val")
     (auto simp: writeYAML_def orReturn_None orReturn_ok orReturn_failed WriteFile_failed
        split: sum.splits)

lemma writeYAML_ok_iff:
  "fst (writeYAML marshal file val s) = None \<longleftrightarrow>
     (\<exists>data. marshal val = Inr data) \<and> is_dir s (Dir file) \<and> s file \<noteq> Some Directory"
  by (cases "marshal val") (auto simp: writeYAML_def orReturn_None WriteFile_ok_iff)

subsection \<open>The relations in the metadata\<close>

lemma roles_distinct:
  "RoleProvider \<noteq> RoleRequirer" "RoleProvider \<noteq> RolePeer" "RoleRequirer \<noteq> RolePeer"
  by (simp_all add: RoleProvider_def RoleRequirer_def RolePeer_def)

lemma filed_one_section:
  "role \<noteq> role' \<Longrightarrow> filed role rels name \<noteq> None \<Longrightarrow> filed role' rels name = None"
  by (auto simp: filed_def split: option.splits if_splits)

lemma fileRelations_sections:
  assumes "fileRelations m rels = Inr m'" and "distinct (map fst rels)"
  shows "Provides m' n = (case map_of rels n of None \<Rightarrow> Provides m n
            | Some r \<Rightarrow> if relRole r = RoleProvider then Some r else Provides m n)
       \<and> Requires m' n = (case map_of rels n of None \<Rightarrow> Requires m n
            | Some r \<Rightarrow> if relRole r = RoleRequirer then Some r else Requires m n)
       \<and> Peers m' n = (case map_of rels n of None \<Rightarrow> Peers m n
            | Some r \<Rightarrow> if relRole r = RolePeer then Some r else Peers m n)"
  using assms
proof (induction m rels arbitrary: m' rule: fileRelations.induct)
  case (1 m)
  then show ?case by simp
next
  case (2 m name rel rest)
  from "2.prems"(2) have d: "distinct (map fst rest)" and nm: "map_of rest name = None"
    by (auto simp: map_of_eq_None_iff)
  show ?case
  proof (cases "relRole rel = RoleProvider")
    case True
    with "2.prems"(1) have "fileRelations (m\<lparr>Provides := (Provides m)(name \<mapsto> rel)\<rparr>) rest = Inr m'"
      by simp
    from "2.IH"(1) [OF True this d] nm True roles_distinct show ?thesis
      by (auto split: option.splits)
  next
    case np: False
    show ?thesis
    proof (cases "relRole rel = RoleRequirer")
      case True
      with np "2.prems"(1) have "fileRelations (m\<lparr>Requires := (Requires m)(name \<mapsto> rel)\<rparr>) rest = Inr m'"
        by simp
      from "2.IH"(2) [OF np True this d] nm np True roles_distinct show ?thesis
        by (auto split: option.splits)
    next
      case nr: False
      with np "2.prems"(1) have pe: "relRole rel = RolePeer"
        by (simp split: if_splits)
      with np nr "2.prems"(1) have "fileRelations (m\<lparr>Peers := (Peers m)(name \<mapsto> rel)\<rparr>) rest = Inr m'"
        by simp
      from "2.IH"(3) [OF np nr pe this d] nm np nr pe show ?thesis
        by (auto split: option.splits)
    qed
  qed
qed

lemma fileRelations_unknown:
  "\<exists>(n, r) \<in> set rels. \<not> known_role (relRole r) \<Longrightarrow> \<exists>e. fileRelations m rels = Inl e"
proof (induction rels arbitrary: m)
  case Nil
  then show ?case by simp
next
  case (Cons x rest)
  obtain name rel where x: "x = (name, rel)" by (cases x)
  show ?case
  proof (cases "known_role (relRole rel)")
    case True
    with Cons.prems x have "\<exists>(n, r) \<in> set rest. \<not> known_role (relRole r)" by auto
    from Cons.IH [OF this] show ?thesis by (simp add: x)
  next
    case False
    then show ?thesis by (simp add: x known_role_def)
  qed
qed

lemma fileRelations_known:
  "\<forall>(n, r) \<in> set rels. known_role (relRole r) \<Longrightarrow> \<exists>m'. fileRelations m rels = Inr m'"
proof (induction rels arbitrary: m)
  case Nil
  then show ?case by simp
next
  case (Cons x rest)
  obtain name rel where x: "x = (name, rel)" by (cases x)
  from Cons.prems have "\<forall>(n, r) \<in> set rest. known_role (relRole r)" by simp
  from Cons.IH [OF this] Cons.prems show ?case by (auto simp: x known_role_def)
qed

lemma newMeta_sections:
  assumes "newMeta b base rels = Inr m" and "distinct (map fst rels)"
  shows "Provides m = filed RoleProvider rels \<and> Requires m = filed RoleRequirer rels
         \<and> Peers m = filed RolePeer rels"
  using fileRelations_sections [OF assms(1) [unfolded newMeta_def] assms(2)]
  by (auto simp: filed_def fun_eq_iff split: option.splits)

lemma writeMeta_ok:
  assumes "fst (writeMeta h b rels s) = None"
  shows "\<exists>base m data perm. newMeta b base rels = Inr m \<and> MarshalMeta h m = Inr data \<and>
           snd (writeMeta h b rels s)
             = s(Join [charmDir b, ''metadata.yaml''] \<mapsto> RegFile (yamlAutogenComment @ data) perm)"
proof -
  let ?file = "Join [pkgDir (pkg b), ''metadata.yaml'']"
  let ?out = "Join [charmDir b, ''metadata.yaml'']"
  from assms obtain n where n: "s ?file = Some n"
    by (cases "s ?file") (auto simp: writeMeta_def Let_def)
  define rd where "rd = (case n of Directory \<Rightarrow> Inl (PathError ''read'' ?file)
                                  | RegFile data perm \<Rightarrow> ReadMeta h data)"
  have unfold: "writeMeta h b rels s =
      (case rd of
         Inl e \<Rightarrow> (Some (Wrapf e ''cannot read metadata.yaml from %q'' [pkgDir (pkg b)]), s)
       | Inr base \<Rightarrow>
           (case newMeta b base rels of
              Inl e \<Rightarrow> (Some e, s)
            | Inr m \<Rightarrow>
                orReturn (writeYAML (MarshalMeta h) ?out m s)
                  (\<lambda>e. Wrapf e ''cannot write metadata.yaml'' []) (\<lambda>s. (None, s))))"
    using n by (simp add: writeMeta_def Let_def rd_def)
  from assms obtain base where base: "rd = Inr base"
    by (cases rd) (auto simp: unfold)
  from assms base obtain m where m: "newMeta b base rels = Inr m"
    by (cases "newMeta b base rels") (auto simp: unfold)
  from assms have w: "fst (writeYAML (MarshalMeta h) ?out m s) = None"
    by (simp add: unfold base m orReturn_None)
  then have "snd (writeMeta h b rels s) = snd (writeYAML (MarshalMeta h) ?out m s)"
    by (simp add: unfold base m orReturn_ok)
  with writeYAML_ok [OF w] m show ?thesis by auto
qed

lemma orReturn_last_snd: "snd (orReturn r w (\<lambda>s. (None, s))) = snd r"
  by (cases r; cases "fst r") (auto simp: orReturn_def split: error.splits)

lemma orReturn_last_fst: "fst (orReturn r w (\<lambda>s. (None, s))) = None \<longleftrightarrow> fst r = None"
  by (simp add: orReturn_None)

lemma writeMeta_failed:
  assumes "fst (writeMeta h b rels s) \<noteq> None"
  shows "snd (writeMeta h b rels s) = s"
proof -
  let ?out = "Join [charmDir b, ''metadata.yaml'']"
  have w: "snd (orReturn (writeYAML (MarshalMeta h) ?out m s) wrap (\<lambda>s. (None, s))) = s"
    if "fst (orReturn (writeYAML (MarshalMeta h) ?out m s) wrap (\<lambda>s. (None, s))) \<noteq> None"
    for m wrap
    using that by (simp add: orReturn_last_snd orReturn_last_fst writeYAML_failed)
  from assms show ?thesis
    unfolding writeMeta_def Let_def
    by (auto split: option.splits sum.splits node.splits simp: w)
qed

lemma writeMeta_unknown_role:
  assumes "\<exists>(n, r) \<in> set rels. \<not> known_role (relRole r)"
  shows "fst (writeMeta h b rels s) \<noteq> None"
proof
  assume "fst (writeMeta h b rels s) = None"
  from writeMeta_ok [OF this] obtain base m where "newMeta b base rels = Inr m" by blast
  then have "fileRelations
       (base\<lparr>Name := Base (pkgDir (pkg b)), Provides := Map.empty, Requires := Map.empty,
             Peers := Map.empty\<rparr>) rels = Inr m" (is "fileRelations ?m0 rels = _")
    by (simp add: newMeta_def)
  moreover from fileRelations_unknown [OF assms, of ?m0]
  obtain e where "fileRelations ?m0 rels = Inl e" by blast
  ultimately show False by simp
qed

lemma buildCharm_ok_writeMeta:
  "fst (buildCharm h p s) = None \<Longrightarrow>
     \<exists>info s2. registeredCharmInfo h (ImportPath (pkg p)) (tempDir p) = Inr info \<and>
        fst (writeMeta h p (Relations info) s2) = None"
  by (auto simp: buildCharm_def Let_def orReturn_None split: if_splits sum.splits option.splits)


text \<open>
  C4, as amended. When \<open>writeMeta\<close> succeeds, the descriptor it has written is the banner
  and the marshalled metadata whose three sections hold the introspected relations, each
  under the section of its role and nothing else, whatever the base metadata had. A
  relation with another role makes \<open>writeMeta\<close> fail without writing or changing any
  file, and the build fails.
\<close>

theorem writeMeta_files_relations_by_role:
  assumes "distinct (map fst rels)"
  shows "(fst (writeMeta h b rels s) = None \<longrightarrow>
            (\<exists>m data perm. MarshalMeta h m = Inr data \<and>
               snd (writeMeta h b rels s)
                 = s(Join [charmDir b, ''metadata.yaml'']
                       \<mapsto> RegFile (yamlAutogenComment @ data) perm) \<and>
               Provides m = filed RoleProvider rels \<and>
               Requires m = filed RoleRequirer rels \<and>
               Peers m = filed RolePeer rels))
       \<and> ((\<exists>(n, r) \<in> set rels. \<not> known_role (relRole r)) \<longrightarrow>
            fst (writeMeta h b rels s) \<noteq> None \<and> snd (writeMeta h b rels s) = s)
       \<and> (registeredCharmInfo h (ImportPath (pkg b)) (tempDir b) = Inr info \<longrightarrow>
            (\<exists>(n, r) \<in> set (Relations info). \<not> known_role (relRole r)) \<longrightarrow>
            fst (buildCharm h b s0) \<noteq> None)"
proof (intro conjI impI)
  assume ok: "fst (writeMeta h b rels s) = None"
  from writeMeta_ok [OF ok] obtain base m data perm where
    m: "newMeta b base rels = Inr m" and d: "MarshalMeta h m = Inr data" and
    w: "snd (writeMeta h b rels s)
          = s(Join [charmDir b, ''metadata.yaml''] \<mapsto> RegFile (yamlAutogenComment @ data) perm)"
    by blast
  from newMeta_sections [OF m assms] d w
  show "\<exists>m data perm. MarshalMeta h m = Inr data \<and>
          snd (writeMeta h b rels s)
            = s(Join [charmDir b, ''metadata.yaml''] \<mapsto> RegFile (yamlAutogenComment @ data) perm) \<and>
          Provides m = filed RoleProvider rels \<and> Requires m = filed RoleRequirer rels \<and>
          Peers m = filed RolePeer rels"
    by blast
next
  assume bad: "\<exists>(n, r) \<in> set rels. \<not> known_role (relRole r)"
  from writeMeta_unknown_role [OF bad] show "fst (writeMeta h b rels s) \<noteq> None" .
  then show "snd (writeMeta h b rels s) = s" by (rule writeMeta_failed)
next
  assume i: "registeredCharmInfo h (ImportPath (pkg b)) (tempDir b) = Inr info"
    and bad: "\<exists>(n, r) \<in> set (Relations info). \<not> known_role (relRole r)"
  show "fst (buildCharm h b s0) \<noteq> None"
  proof
    assume "fst (buildCharm h b s0) = None"
    from buildCharm_ok_writeMeta [OF this] i obtain s2 where
      "fst (writeMeta h b (Relations info) s2) = None" by auto
    with writeMeta_unknown_role [OF bad] show False by blast
  qed
qed

theorem writeMeta_files_relations_by_role_witness:
  "distinct (map fst (Relations demo_info)) \<and>
   fst (writeMeta demo_host demo (Relations demo_info) demo_fs) = None \<and>
   (\<exists>m data perm. MarshalMeta demo_host m = Inr data \<and>
      snd (writeMeta demo_host demo (Relations demo_info) demo_fs)
        = demo_fs(Join [charmDir demo, ''metadata.yaml'']
                    \<mapsto> RegFile (yamlAutogenComment @ data) perm) \<and>
      Provides m = filed RoleProvider (Relations demo_info) \<and>
      Requires m = filed RoleRequirer (Relations demo_info) \<and>
      Peers m = filed RolePeer (Relations demo_info)) \<and>
   filed RoleProvider (Relations demo_info) ''db'' = Some (demo_relation ''provider'') \<and>
   filed RoleProvider (Relations demo_info) ''old'' = None \<and>
   filed RoleRequirer (Relations demo_info) ''db'' = None \<and>
   filed RolePeer (Relations demo_info) ''db'' = None \<and>
   \<not> known_role ''bogus'' \<and>
   fst (writeMeta bogus_role_host demo [(''db'', demo_relation ''bogus'')] demo_fs) \<noteq> None \<and>
   snd (writeMeta bogus_role_host demo [(''db'', demo_relation ''bogus'')] demo_fs) = demo_fs \<and>
   fst (buildCharm bogus_role_host demo demo_fs) \<noteq> None"
proof -
  have d1: "distinct (map fst (Relations demo_info))" by code_simp
  have d2: "distinct (map fst [(''db'', demo_relation ''bogus'')])" by simp
  have ok: "fst (writeMeta demo_host demo (Relations demo_info) demo_fs) = None" by code_simp
  have s: "filed RoleProvider (Relations demo_info) ''db'' = Some (demo_relation ''provider'')"
    "filed RoleProvider (Relations demo_info) ''old'' = None"
    "filed RoleRequirer (Relations demo_info) ''db'' = None"
    "filed RolePeer (Relations demo_info) ''db'' = None"
    "\<not> known_role ''bogus''"
    by code_simp+
  have bad: "\<exists>(n, r) \<in> set [(''db'', demo_relation ''bogus'')]. \<not> known_role (relRole r)"
    using s(5) by (simp add: demo_relation_def)
  have i: "registeredCharmInfo bogus_role_host (ImportPath (pkg demo)) (tempDir demo)
             = Inr (demo_info\<lparr>Relations := [(''db'', demo_relation ''bogus'')]\<rparr>)"
    by (simp add: bogus_role_host_def)
  from writeMeta_files_relations_by_role [OF d2, where h = bogus_role_host and b = demo
      and s = demo_fs and ?s0.0 = demo_fs
      and info = "demo_info\<lparr>Relations := [(''db'', demo_relation ''bogus'')]\<rparr>"] bad i
  have 1: "fst (writeMeta bogus_role_host demo [(''db'', demo_relation ''bogus'')] demo_fs) \<noteq> None \<and>
      snd (writeMeta bogus_role_host demo [(''db'', demo_relation ''bogus'')] demo_fs) = demo_fs \<and>
      fst (buildCharm bogus_role_host demo demo_fs) \<noteq> None"
    by simp
  from writeMeta_files_relations_by_role [OF d1, where h = demo_host and b = demo
      and s = demo_fs] ok
  have 2: "\<exists>m data perm. MarshalMeta demo_host m = Inr data \<and>
      snd (writeMeta demo_host demo (Relations demo_info) demo_fs)
        = demo_fs(Join [charmDir demo, ''metadata.yaml'']
                    \<mapsto> RegFile (yamlAutogenComment @ data) perm) \<and>
      Provides m = filed RoleProvider (Relations demo_info) \<and>
      Requires m = filed RoleRequirer (Relations demo_info) \<and>
      Peers m = filed RolePeer (Relations demo_info)"
    by blast
  from 1 2 d1 ok s show ?thesis by blast
qed

text \<open>
  C4, counterexample. The package of the scenario registers a relation with the role
  \<open>bogus\<close>: the build fails in \<open>writeMeta\<close>, and by then the source of \<open>runhook\<close>, the
  executable and the hook scripts have been written to a charm directory that was empty.
\<close>

theorem unknown_role_fails_after_files_written:
  "fst (buildCharm bogus_role_host demo demo_fs)
     = Some (Wrapf (Newf ''unknown role %q in relation'' [''bogus''])
               ''cannot write metadata.yaml'' []) \<and>
   demo_fs ''/charms/trusty/blog/hooks/install'' = None \<and>
   snd (buildCharm bogus_role_host demo demo_fs) ''/charms/trusty/blog/hooks/install''
     = Some (RegFile (hookStub demo ''install'') 493) \<and>
   demo_fs ''/charms/trusty/blog/src/runhook/runhook.go'' = None \<and>
   is_file (snd (buildCharm bogus_role_host demo demo_fs)) ''/charms/trusty/blog/src/runhook/runhook.go'' \<and>
   is_file (snd (buildCharm bogus_role_host demo demo_fs)) ''/charms/trusty/blog/bin/runhook'' \<and>
   snd (buildCharm bogus_role_host demo demo_fs) ''/charms/trusty/blog/metadata.yaml'' = None"
  by code_simp

subsection \<open>The YAML of a configuration is read back\<close>

lemma unescape_escape: "unescape (escape s) = Some s"
proof (induction s)
  case Nil
  show ?case by simp
next
  case (Cons c cs)
  show ?case
  proof (cases "escape cs")
    case Nil
    with Cons show ?thesis by (cases cs) (auto split: if_splits)
  next
    case (Cons d ds)
    with Cons.IH show ?thesis by auto
  qed
qed

lemma escape_no_newline: "CHR ''\<newline>'' \<notin> set (escape s)"
  by (induction s) auto

lemma plain_safe_hd: "plain_safe s \<Longrightarrow> s \<noteq> [] \<and> hd s \<in> set letters"
  by (cases s) (auto simp: plain_safe_def)

lemma plain_safe_no_newline: "plain_safe s \<Longrightarrow> CHR ''\<newline>'' \<notin> set s"
proof
  assume p: "plain_safe s" and n: "CHR ''\<newline>'' \<in> set s"
  from p have "list_all (\<lambda>x. x \<in> set plain_chars) s"
    by (cases s) (auto simp: plain_safe_def)
  with n have "CHR ''\<newline>'' \<in> set plain_chars" by (auto simp: list_all_iff)
  then show False by (simp add: plain_chars_def letters_def digit_chars_def)
qed

lemma letter_not_quote: "c \<in> set letters \<Longrightarrow> c \<noteq> CHR 0x22 \<and> c \<noteq> CHR ''-'' \<and> c \<notin> set digit_chars \<and> c \<noteq> CHR ''#'' \<and> c \<noteq> CHR '' ''"
  by (auto simp: letters_def digit_chars_def)

lemma decode_encode_string: "decode_string (encode_string s) = Some s"
proof (cases "plain_safe s")
  case True
  from plain_safe_hd [OF True] letter_not_quote [of "hd s"] have "take 1 s \<noteq> [CHR 0x22]"
    by (cases s) auto
  with True show ?thesis by (simp add: encode_string_def decode_string_def)
next
  case False
  then show ?thesis
    by (simp add: encode_string_def decode_string_def unescape_escape butlast_append)
qed

lemma encode_string_no_newline: "CHR ''\<newline>'' \<notin> set (encode_string s)"
  by (auto simp: encode_string_def escape_no_newline dest: plain_safe_no_newline)

lemma encode_string_hd:
  "encode_string s \<noteq> [] \<and> (hd (encode_string s) = CHR 0x22 \<or> plain_safe (encode_string s))"
  by (auto simp: encode_string_def dest: plain_safe_hd)


lemma digit_cases:
  "d < 10 \<Longrightarrow> d = 0 \<or> d = 1 \<or> d = 2 \<or> d = 3 \<or> d = 4 \<or> d = 5 \<or> d = 6 \<or> d = 7 \<or> d = 8 \<or> d = (9::nat)"
  by arith

lemma digit_index: "d < 10 \<Longrightarrow> Index digit_chars (digit_chars ! d) = Some d"
  by (drule digit_cases) (auto simp: digit_chars_def)

lemma digit_mem: "d < 10 \<Longrightarrow> digit_chars ! d \<in> set digit_chars"
  by (drule digit_cases) (auto simp: digit_chars_def)

lemma read_digits_append:
  "read_digits acc (xs @ ys) = (case read_digits acc xs of None \<Rightarrow> None | Some a \<Rightarrow> read_digits a ys)"
  by (induction xs arbitrary: acc) (auto split: option.splits)

lemma read_digits_show_nat: "read_digits 0 (show_nat n) = Some n"
proof (induction n rule: show_nat.induct)
  case (1 n)
  show ?case
  proof (cases "n < 10")
    case True
    then show ?thesis by (subst show_nat.simps) (simp add: digit_index)
  next
    case False
    have "n mod 10 < 10" by simp
    with False "1.IH" show ?thesis
      by (subst show_nat.simps) (simp add: read_digits_append digit_index)
  qed
qed

lemma show_nat_digits: "show_nat n \<noteq> [] \<and> set (show_nat n) \<subseteq> set digit_chars"
proof (induction n rule: show_nat.induct)
  case (1 n)
  show ?case
  proof (cases "n < 10")
    case True
    then show ?thesis by (subst (1 2) show_nat.simps) (simp add: digit_mem)
  next
    case False
    have "n mod 10 < 10" by simp
    with False "1.IH" show ?thesis
      by (subst (1 2) show_nat.simps) (simp add: digit_mem)
  qed
qed

lemma read_nat_show_nat: "read_nat (show_nat n) = Some n"
  using show_nat_digits [of n] by (simp add: read_nat_def read_digits_show_nat)

lemma read_int_show_int: "read_int (show_int i) = Some i"
proof (cases "i < 0")
  case True
  then show ?thesis by (simp add: read_int_def show_int_def read_nat_show_nat)
next
  case False
  obtain c cs where c: "show_nat (nat i) = c # cs"
    using show_nat_digits [of "nat i"] by (cases "show_nat (nat i)") auto
  with show_nat_digits [of "nat i"] have "c \<in> set digit_chars" by auto
  then have "c \<noteq> CHR ''-''" by (auto simp: digit_chars_def)
  with False c read_nat_show_nat [of "nat i"] show ?thesis
    by (simp add: read_int_def show_int_def)
qed

lemma show_int_chars: "show_int i \<noteq> [] \<and> set (show_int i) \<subseteq> set (CHR ''-'' # digit_chars)"
  using show_nat_digits [of "nat i"] show_nat_digits [of "nat (- i)"]
  by (auto simp: show_int_def)

lemma read_int_plain: "plain_safe s \<Longrightarrow> read_int s = None"
proof -
  assume p: "plain_safe s"
  then obtain c cs where s: "s = c # cs" and c: "c \<in> set letters"
    by (cases s) (auto simp: plain_safe_def)
  from letter_not_quote [OF c] have "c \<noteq> CHR ''-''" and "Index digit_chars c = None"
    by (auto simp: Index_None_iff)
  then show ?thesis by (simp add: s read_int_def read_nat_def)
qed

lemma read_int_quoted: "read_int (CHR 0x22 # t) = None"
  by (simp add: read_int_def read_nat_def digit_chars_def)

lemma decode_encode_default: "decode_default (encode_default v) = Some v"
proof (cases v)
  case NoDefault
  then show ?thesis by (simp add: encode_default_def decode_default_def)
next
  case (DBool b)
  then show ?thesis by (simp add: encode_default_def decode_default_def)
next
  case (DInt i)
  from show_int_chars [of i] have "show_int i \<noteq> ''null''" "show_int i \<noteq> ''true''"
    "show_int i \<noteq> ''false''"
    by (auto simp: digit_chars_def)
  with DInt show ?thesis by (simp add: encode_default_def decode_default_def read_int_show_int)
next
  case (DString s)
  show ?thesis
  proof (cases "plain_safe s")
    case True
    then have "s \<notin> set reserved" by (cases s) (auto simp: plain_safe_def)
    then have "s \<noteq> ''null''" "s \<noteq> ''true''" "s \<noteq> ''false''" by (auto simp: reserved_def)
    with True DString decode_encode_string [of s] show ?thesis
      by (simp add: encode_default_def decode_default_def encode_string_def read_int_plain)
  next
    case False
    with DString decode_encode_string [of s] show ?thesis
      by (simp add: encode_default_def decode_default_def encode_string_def read_int_quoted)
  qed
qed

lemma encode_default_no_newline: "CHR ''\<newline>'' \<notin> set (encode_default v)"
proof (cases v)
  case (DInt i)
  with show_int_chars [of i] show ?thesis by (auto simp: encode_default_def digit_chars_def)
qed (auto simp: encode_default_def encode_string_no_newline)


lemma split_lines_not_Nil: "split_lines t \<noteq> []"
  by (induction t) (auto split: list.splits)

lemma split_lines_line:
  "CHR ''\<newline>'' \<notin> set l \<Longrightarrow> split_lines (l @ CHR ''\<newline>'' # t) = l # split_lines t"
  by (induction l) (auto split: list.splits simp: split_lines_not_Nil)

lemma split_lines_unlines:
  "\<forall>l \<in> set ls. CHR ''\<newline>'' \<notin> set l \<Longrightarrow> split_lines (unlines ls) = ls @ [[]]"
proof (induction ls)
  case Nil
  show ?case by (simp add: unlines_def)
next
  case (Cons l ls)
  then have "split_lines (unlines ls) = ls @ [[]]" and n: "CHR ''\<newline>'' \<notin> set l" by simp_all
  moreover have "unlines (l # ls) = l @ CHR ''\<newline>'' # unlines ls" by (simp add: unlines_def)
  ultimately show ?case by (simp add: split_lines_line)
qed

lemma banner_unlines: "yamlAutogenComment @ unlines ls = unlines ((''# '' @ autogenMessage) # ls)"
  by (simp add: yamlAutogenComment_def unlines_def)

lemma banner_line: "CHR ''\<newline>'' \<notin> set (''# '' @ autogenMessage) \<and> blank_or_comment (''# '' @ autogenMessage)"
  by (simp add: autogenMessage_def blank_or_comment_def)

lemma encode_string_start:
  "dropWhile (\<lambda>c. c = CHR '' '') (encode_string s @ t) = encode_string s @ t \<and>
   hd (encode_string s @ t) \<noteq> CHR ''#'' \<and> encode_string s @ t \<noteq> []"
proof (cases "plain_safe s")
  case True
  then obtain c cs where "s = c # cs" "c \<in> set letters" by (cases s) (auto simp: plain_safe_def)
  with True letter_not_quote [of c] show ?thesis by (simp add: encode_string_def)
next
  case False
  then show ?thesis by (simp add: encode_string_def)
qed

lemma option_lines_plain:
  assumes "l \<in> set (option_lines kv)"
  shows "CHR ''\<newline>'' \<notin> set l" and "\<not> blank_or_comment l"
proof -
  obtain k v where kv: "kv = (k, v)" by (cases kv)
  from assms show "CHR ''\<newline>'' \<notin> set l"
    by (auto simp: kv option_lines_def encode_string_no_newline encode_default_no_newline)
  have key: "\<not> blank_or_comment (''  '' @ encode_string k @ '':'')"
    using encode_string_start [of k "'':''"]
    by (cases "encode_string k @ '':''") (auto simp: blank_or_comment_def)
  from assms key show "\<not> blank_or_comment l"
    by (auto simp: kv option_lines_def blank_or_comment_def)
qed

lemma key_line_option: "key_line (''  '' @ encode_string k @ '':'') = Some k"
  by (simp add: key_line_def strip_prefix_def HasPrefix_def decode_encode_string butlast_append)

lemma field_line_type: "field_line ''type'' (''    type: '' @ encode_string t) = Some t"
  by (simp add: field_line_def strip_prefix_def HasPrefix_def decode_encode_string)

lemma field_line_description:
  "field_line ''description'' (''    description: '' @ encode_string t) = Some t"
  by (simp add: field_line_def strip_prefix_def HasPrefix_def decode_encode_string)

lemma default_line_option: "default_line (''    default: '' @ encode_default v) = Some v"
  by (simp add: default_line_def strip_prefix_def HasPrefix_def decode_encode_default)

lemma parse_options_lines: "parse_options (concat (map option_lines cfg)) = Some cfg"
proof (induction cfg)
  case Nil
  show ?case by simp
next
  case (Cons kv cfg)
  obtain k v where kv: "kv = (k, v)" by (cases kv)
  let ?k = "''  '' @ encode_string k @ '':''"
  let ?t = "''    type: '' @ encode_string (optType v)"
  let ?d = "''    description: '' @ encode_string (optDescription v)"
  let ?v = "''    default: '' @ encode_default (optDefault v)"
  have c: "concat (map option_lines (kv # cfg)) = ?k # ?t # ?d # ?v # concat (map option_lines cfg)"
    by (simp add: kv option_lines_def)
  have "parse_options (?k # ?t # ?d # ?v # concat (map option_lines cfg))
          = Some ((k, \<lparr>optType = optType v, optDescription = optDescription v,
                         optDefault = optDefault v\<rparr>) # cfg)"
    by (simp only: parse_options.simps key_line_option field_line_type field_line_description
          default_line_option Cons.IH option.case)
  then show ?case unfolding c by (simp add: kv)
qed

text \<open>
  What \<open>Marshal\<close> writes for a configuration is read back as the same configuration, with
  or without the banner of \<open>writeYAML\<close> before it.
\<close>

lemma unmarshal_lines:
  assumes "\<forall>l \<in> set ls. CHR ''\<newline>'' \<notin> set l \<and> \<not> blank_or_comment l"
  shows "filter (\<lambda>l. \<not> blank_or_comment l) (split_lines (yamlAutogenComment @ unlines ls)) = ls"
proof -
  have "\<forall>l \<in> set ((''# '' @ autogenMessage) # ls). CHR ''\<newline>'' \<notin> set l"
    using assms banner_line by auto
  then have "split_lines (yamlAutogenComment @ unlines ls) = ((''# '' @ autogenMessage) # ls) @ [[]]"
    unfolding banner_unlines by (rule split_lines_unlines)
  moreover have "blank_or_comment []" by (simp add: blank_or_comment_def)
  moreover have "filter (\<lambda>l. \<not> blank_or_comment l) ls = ls" using assms by (simp add: filter_id_conv)
  ultimately show ?thesis using banner_line by simp
qed

lemma unmarshal_marshal_banner:
  assumes "marshalConfig c = Inr data"
  shows "unmarshalConfig (yamlAutogenComment @ data) = Inr c"
proof (cases "Options c = []")
  case True
  with assms have d: "data = unlines [''options: {}'']" by (simp add: marshalConfig_def)
  have "filter (\<lambda>l. \<not> blank_or_comment l) (split_lines (yamlAutogenComment @ unlines [''options: {}'']))
          = [''options: {}'']"
    by (rule unmarshal_lines) (simp add: blank_or_comment_def)
  with True show ?thesis by (simp add: unmarshalConfig_def d)
next
  case False
  let ?ls = "''options:'' # concat (map option_lines (Options c))"
  from False assms have d: "data = unlines ?ls" by (simp add: marshalConfig_def)
  have "\<forall>l \<in> set ?ls. CHR ''\<newline>'' \<notin> set l \<and> \<not> blank_or_comment l"
    using option_lines_plain by (auto simp: blank_or_comment_def)
  then have "filter (\<lambda>l. \<not> blank_or_comment l) (split_lines (yamlAutogenComment @ unlines ?ls)) = ?ls"
    by (rule unmarshal_lines)
  then show ?thesis by (simp add: unmarshalConfig_def d parse_options_lines)
qed

subsection \<open>writeConfig\<close>

text \<open>
  C7. With no options \<open>writeConfig\<close> returns success and leaves the file system as it
  is, so no \<open>config.yaml\<close> is created. With options it succeeds exactly when the
  configuration can be marshalled and the file written, and \<open>config.yaml\<close> in the charm
  directory then holds the banner and the marshalled \<open>charm.Config\<close> with exactly these
  options. With the YAML library, whenever the file can be written \<open>writeConfig\<close>
  succeeds and unmarshalling the file it has written gives the same options back.
\<close>

theorem writeConfig_empty_or_round_trip:
  "(cfg = [] \<longrightarrow> writeConfig h b cfg s = (None, s))
   \<and> (cfg \<noteq> [] \<longrightarrow>
        (fst (writeConfig h b cfg s) = None \<longleftrightarrow>
           (\<exists>data. MarshalConfig h \<lparr>Options = cfg\<rparr> = Inr data) \<and>
           is_dir s (Dir (Join [charmDir b, ''config.yaml''])) \<and>
           s (Join [charmDir b, ''config.yaml'']) \<noteq> Some Directory))
   \<and> (cfg \<noteq> [] \<longrightarrow> fst (writeConfig h b cfg s) = None \<longrightarrow>
        (\<exists>data perm. MarshalConfig h \<lparr>Options = cfg\<rparr> = Inr data \<and>
           snd (writeConfig h b cfg s)
             = s(Join [charmDir b, ''config.yaml''] \<mapsto> RegFile (yamlAutogenComment @ data) perm)))
   \<and> (cfg \<noteq> [] \<longrightarrow> is_dir s (Dir (Join [charmDir b, ''config.yaml''])) \<longrightarrow>
        s (Join [charmDir b, ''config.yaml'']) \<noteq> Some Directory \<longrightarrow>
        fst (writeConfig (h\<lparr>MarshalConfig := marshalConfig\<rparr>) b cfg s) = None \<and>
        readConfigFile unmarshalConfig
            (snd (writeConfig (h\<lparr>MarshalConfig := marshalConfig\<rparr>) b cfg s))
            (Join [charmDir b, ''config.yaml''])
          = Inr \<lparr>Options = cfg\<rparr>)"
proof (intro conjI impI)
  assume "cfg = []"
  then show "writeConfig h b cfg s = (None, s)" by (simp add: writeConfig_def)
next
  assume ne: "cfg \<noteq> []"
  then show "fst (writeConfig h b cfg s) = None \<longleftrightarrow>
           (\<exists>data. MarshalConfig h \<lparr>Options = cfg\<rparr> = Inr data) \<and>
           is_dir s (Dir (Join [charmDir b, ''config.yaml''])) \<and>
           s (Join [charmDir b, ''config.yaml'']) \<noteq> Some Directory"
    by (simp add: writeConfig_def Let_def orReturn_last_fst writeYAML_ok_iff)
next
  assume ne: "cfg \<noteq> []" and ok: "fst (writeConfig h b cfg s) = None"
  let ?file = "Join [charmDir b, ''config.yaml'']"
  from ne ok have w: "fst (writeYAML (MarshalConfig h) ?file \<lparr>Options = cfg\<rparr> s) = None"
    by (simp add: writeConfig_def Let_def orReturn_last_fst)
  from ne have "snd (writeConfig h b cfg s) = snd (writeYAML (MarshalConfig h) ?file \<lparr>Options = cfg\<rparr> s)"
    by (simp add: writeConfig_def Let_def orReturn_last_snd)
  with writeYAML_ok [OF w]
  show "\<exists>data perm. MarshalConfig h \<lparr>Options = cfg\<rparr> = Inr data \<and>
           snd (writeConfig h b cfg s) = s(?file \<mapsto> RegFile (yamlAutogenComment @ data) perm)"
    by auto
next
  assume ne: "cfg \<noteq> []"
  let ?file = "Join [charmDir b, ''config.yaml'']"
  let ?h = "h\<lparr>MarshalConfig := marshalConfig\<rparr>"
  assume dir: "is_dir s (Dir ?file)" and nodir: "s ?file \<noteq> Some Directory"
  obtain data where data: "marshalConfig \<lparr>Options = cfg\<rparr> = Inr data"
    by (simp add: marshalConfig_def)
  from ne dir nodir data show ok: "fst (writeConfig ?h b cfg s) = None"
    by (simp add: writeConfig_def Let_def orReturn_last_fst writeYAML_ok_iff)
  from ne ok have w: "fst (writeYAML marshalConfig ?file \<lparr>Options = cfg\<rparr> s) = None"
    by (simp add: writeConfig_def Let_def orReturn_last_fst)
  from ne have "snd (writeConfig ?h b cfg s) = snd (writeYAML marshalConfig ?file \<lparr>Options = cfg\<rparr> s)"
    by (simp add: writeConfig_def Let_def orReturn_last_snd)
  with writeYAML_ok [OF w] data obtain perm where
    f: "snd (writeConfig ?h b cfg s) = s(?file \<mapsto> RegFile (yamlAutogenComment @ data) perm)"
    by auto
  from unmarshal_marshal_banner [OF data]
  show "readConfigFile unmarshalConfig (snd (writeConfig ?h b cfg s)) ?file = Inr \<lparr>Options = cfg\<rparr>"
    by (simp add: f readConfigFile_def)
qed

theorem writeConfig_empty_or_round_trip_witness:
  \<open>writeConfig demo_host demo [] demo_fs = (None, demo_fs) \<and>
   demo_config \<noteq> [] \<and>
   fst (writeConfig demo_host demo demo_config demo_fs) = None \<and>
   snd (writeConfig demo_host demo demo_config demo_fs) ''/charms/trusty/blog/config.yaml''
     = Some (RegFile (yamlAutogenComment @ unlines
               [''options:'', ''  debug:'', ''    type: boolean'',
                ''    description: Debug mode'', ''    default: false'']) 438) \<and>
   readConfigFile unmarshalConfig (snd (writeConfig demo_host demo demo_config demo_fs))
      ''/charms/trusty/blog/config.yaml'' = Inr \<lparr>Options = demo_config\<rparr> \<and>
   snd (writeConfig demo_host demo odd_config demo_fs) ''/charms/trusty/blog/config.yaml''
     = Some (RegFile (yamlAutogenComment @ unlines
               [''options:'',
                ''  "log: level":'', ''    type: int'',
                ''    description: "say '' @ BSL @ ''"how'' @ BSL @ ''" much'' @ BSL @ ''n# to log"'',
                ''    default: -42'',
                ''  mode:'', ''    type: string'', ''    description: ""'', ''    default: "true"'',
                ''  name:'', ''    type: string'', ''    description: Site name'',
                ''    default: null'']) 438) \<and>
   readConfigFile unmarshalConfig (snd (writeConfig demo_host demo odd_config demo_fs))
      ''/charms/trusty/blog/config.yaml'' = Inr \<lparr>Options = odd_config\<rparr>\<close>
proof -
  have h: "demo_host\<lparr>MarshalConfig := marshalConfig\<rparr> = demo_host" by (simp add: demo_host_def)
  have p: "Join [charmDir demo, ''config.yaml''] = ''/charms/trusty/blog/config.yaml''"
    by code_simp
  have ne: "demo_config \<noteq> []" "odd_config \<noteq> []" by (simp_all add: demo_config_def odd_config_def)
  have dir: "is_dir demo_fs (Dir ''/charms/trusty/blog/config.yaml'')"
    "demo_fs ''/charms/trusty/blog/config.yaml'' \<noteq> Some Directory"
    by code_simp+
  have f1: "snd (writeConfig demo_host demo demo_config demo_fs) ''/charms/trusty/blog/config.yaml''
     = Some (RegFile (yamlAutogenComment @ unlines
               [''options:'', ''  debug:'', ''    type: boolean'',
                ''    description: Debug mode'', ''    default: false'']) 438)"
    by code_simp
  have f2: \<open>snd (writeConfig demo_host demo odd_config demo_fs) ''/charms/trusty/blog/config.yaml''
     = Some (RegFile (yamlAutogenComment @ unlines
               [''options:'',
                ''  "log: level":'', ''    type: int'',
                ''    description: "say '' @ BSL @ ''"how'' @ BSL @ ''" much'' @ BSL @ ''n# to log"'',
                ''    default: -42'',
                ''  mode:'', ''    type: string'', ''    description: ""'', ''    default: "true"'',
                ''  name:'', ''    type: string'', ''    description: Site name'',
                ''    default: null'']) 438)\<close>
    by code_simp
  from writeConfig_empty_or_round_trip [where cfg = "[]" and h = demo_host and b = demo
      and s = demo_fs]
  have 1: "writeConfig demo_host demo [] demo_fs = (None, demo_fs)" by simp
  from writeConfig_empty_or_round_trip [where cfg = demo_config and h = demo_host and b = demo
      and s = demo_fs] ne dir
  have 2: "fst (writeConfig demo_host demo demo_config demo_fs) = None \<and>
      readConfigFile unmarshalConfig (snd (writeConfig demo_host demo demo_config demo_fs))
        ''/charms/trusty/blog/config.yaml'' = Inr \<lparr>Options = demo_config\<rparr>"
    unfolding h p by blast
  from writeConfig_empty_or_round_trip [where cfg = odd_config and h = demo_host and b = demo
      and s = demo_fs] ne dir
  have 3: "readConfigFile unmarshalConfig (snd (writeConfig demo_host demo odd_config demo_fs))
        ''/charms/trusty/blog/config.yaml'' = Inr \<lparr>Options = odd_config\<rparr>"
    unfolding h p by blast
  from 1 2 3 ne f1 f2 show ?thesis by blast
qed

subsection \<open>What setenv does to the value of a variable\<close>

lemma takeWhile_key: "CHR ''='' \<notin> set k \<Longrightarrow> takeWhile (\<lambda>c. c \<noteq> CHR ''='') (k @ CHR ''='' # v) = k"
  by (induction k) auto

lemma HasPrefix_takeWhile:
  assumes "HasPrefix e (k @ ''='')" and "CHR ''='' \<notin> set k"
  shows "takeWhile (\<lambda>c. c \<noteq> CHR ''='') e = k"
proof -
  have "take (length (k @ ''='')) e @ drop (length (k @ ''='')) e = e"
    by (rule append_take_drop_id)
  with assms(1) have "e = k @ CHR ''='' # drop (length (k @ ''='')) e"
    by (simp add: HasPrefix_def)
  then obtain v where "e = k @ CHR ''='' # v" ..
  with assms(2) show ?thesis by (simp add: takeWhile_key)
qed

lemma setenv_Inr:
  assumes "setenv env entry = Inr env'"
  shows "HasPrefix entry (entry_key entry @ ''='')"
    and "setenv_loop (entry_key entry @ ''='') entry env = Some env' \<or>
         (setenv_loop (entry_key entry @ ''='') entry env = None \<and> env' = env @ [entry])"
proof -
  from assms obtain i where i: "Index entry (CHR ''='') = Some i"
    by (cases "Index entry (CHR ''='')") (auto simp: setenv_def)
  have pfx: "take (i + 1) entry = entry_key entry @ ''=''"
    using Index_take [OF i] by (simp add: entry_key_def)
  have "length (entry_key entry @ ''='') \<le> i + 1"
    by (metis pfx length_take min.cobounded2)
  then have "take (length (entry_key entry @ ''='')) entry = take (length (entry_key entry @ ''='')) (take (i + 1) entry)"
    by (simp add: min_def)
  then show "HasPrefix entry (entry_key entry @ ''='')"
    unfolding HasPrefix_def pfx by simp
  from assms i pfx show "setenv_loop (entry_key entry @ ''='') entry env = Some env' \<or>
         (setenv_loop (entry_key entry @ ''='') entry env = None \<and> env' = env @ [entry])"
    by (auto simp: setenv_def Let_def split: option.splits)
qed

lemma find_append_miss: "\<not> P x \<Longrightarrow> find P (xs @ [x]) = find P xs"
  by (induction xs) auto

lemma find_append_hit: "\<forall>e \<in> set xs. \<not> P e \<Longrightarrow> P x \<Longrightarrow> find P (xs @ [x]) = Some x"
  by (induction xs) auto

lemma setenv_loop_find_other:
  assumes "setenv_loop pfx entry env = Some env'" and "\<not> P entry"
    and "\<And>e. HasPrefix e pfx \<Longrightarrow> \<not> P e"
  shows "find P env' = find P env"
  using assms(1)
proof (induction env arbitrary: env')
  case Nil
  then show ?case by simp
next
  case (Cons e es)
  show ?case
  proof (cases "HasPrefix e pfx")
    case True
    with Cons.prems have "env' = entry # es" by simp
    with True assms(2,3) show ?thesis by simp
  next
    case False
    with Cons.prems obtain es' where "setenv_loop pfx entry es = Some es'" "env' = e # es'"
      by auto
    with Cons.IH show ?thesis by simp
  qed
qed

lemma setenv_loop_find_same:
  assumes "setenv_loop pfx entry env = Some env'" and "HasPrefix entry pfx"
  shows "find (\<lambda>e. HasPrefix e pfx) env' = Some entry"
  using assms(1)
proof (induction env arbitrary: env')
  case Nil
  then show ?case by simp
next
  case (Cons e es)
  show ?case
  proof (cases "HasPrefix e pfx")
    case True
    with Cons.prems have "env' = entry # es" by simp
    with assms(2) show ?thesis by simp
  next
    case False
    with Cons.prems obtain es' where "setenv_loop pfx entry es = Some es'" "env' = e # es'"
      by auto
    with Cons.IH False show ?thesis by simp
  qed
qed

text \<open>
  \<open>setenv\<close> gives the variable of the entry the value of the entry and leaves the value
  of every other variable as it was.
\<close>

lemma setenv_LookupEnv_same:
  assumes "setenv env entry = Inr env'"
  shows "LookupEnv env' (entry_key entry) = Some (drop (length (entry_key entry) + 1) entry)"
proof -
  let ?pfx = "entry_key entry @ ''=''"
  have "find (\<lambda>e. HasPrefix e ?pfx) env' = Some entry"
    using setenv_Inr [OF assms]
    by (auto simp: setenv_loop_find_same setenv_loop_None find_append_hit)
  then show ?thesis by (simp add: LookupEnv_def)
qed

lemma setenv_LookupEnv_other:
  assumes "setenv env entry = Inr env'" and "key \<noteq> entry_key entry" and "CHR ''='' \<notin> set key"
  shows "LookupEnv env' key = LookupEnv env key"
proof -
  let ?pfx = "entry_key entry @ ''=''"
  have k: "CHR ''='' \<notin> set (entry_key entry)"
    unfolding entry_key_def by (metis (mono_tags, lifting) set_takeWhileD)
  have other: "\<not> HasPrefix e (key @ ''='')" if "HasPrefix e ?pfx" for e
  proof
    assume "HasPrefix e (key @ ''='')"
    from HasPrefix_takeWhile [OF this assms(3)] HasPrefix_takeWhile [OF that k] assms(2)
    show False by simp
  qed
  let ?P = "\<lambda>e. HasPrefix e (key @ ''='')"
  from setenv_Inr(1) [OF assms(1)] have ne: "\<not> ?P entry" by (rule other)
  from setenv_Inr(2) [OF assms(1)] have "find ?P env' = find ?P env"
  proof
    assume "setenv_loop ?pfx entry env = Some env'"
    then show ?thesis using ne other by (rule setenv_loop_find_other)
  next
    assume "setenv_loop ?pfx entry env = None \<and> env' = env @ [entry]"
    with ne show ?thesis by (simp add: find_append_miss)
  qed
  then show ?thesis by (simp add: LookupEnv_def)
qed

text \<open>
  The environment of a cross compilation has \<open>GOOS=linux\<close> and \<open>GOARCH=amd64\<close>, and its
  \<open>CGO_ENABLED\<close> is that of the process: the builder never sets it.
\<close>

lemma compile_env_cross:
  assumes "compile_env environ True = Inr env"
  shows "LookupEnv env ''GOOS'' = Some ''linux''"
    and "LookupEnv env ''GOARCH'' = Some ''amd64''"
    and "LookupEnv env ''CGO_ENABLED'' = LookupEnv environ ''CGO_ENABLED''"
proof -
  from assms obtain env1 env2 where
    1: "setenv environ ''CGOENABLED=false'' = Inr env1" and
    2: "setenv env1 ''GOARCH=amd64'' = Inr env2" and
    3: "setenv env2 ''GOOS=linux'' = Inr env"
    by (auto simp: compile_env_def split: sum.splits)
  have k: "entry_key ''CGOENABLED=false'' = ''CGOENABLED''" "entry_key ''GOARCH=amd64'' = ''GOARCH''"
    "entry_key ''GOOS=linux'' = ''GOOS''"
    by (simp_all add: entry_key_def)
  from setenv_LookupEnv_same [OF 3] show "LookupEnv env ''GOOS'' = Some ''linux''"
    by (simp add: k)
  from setenv_LookupEnv_same [OF 2] have "LookupEnv env2 ''GOARCH'' = Some ''amd64''"
    by (simp add: k)
  with setenv_LookupEnv_other [OF 3, of "''GOARCH''"]
  show "LookupEnv env ''GOARCH'' = Some ''amd64''" by (simp add: k)
  from setenv_LookupEnv_other [OF 1, of "''CGO_ENABLED''"]
       setenv_LookupEnv_other [OF 2, of "''CGO_ENABLED''"]
       setenv_LookupEnv_other [OF 3, of "''CGO_ENABLED''"]
  show "LookupEnv env ''CGO_ENABLED'' = LookupEnv environ ''CGO_ENABLED''"
    by (simp add: k)
qed

lemma compile_env_total: "\<exists>env. compile_env environ crossCompile = Inr env"
proof (cases crossCompile)
  case False
  then show ?thesis by (simp add: compile_env_def)
next
  case True
  obtain env1 where 1: "setenv environ ''CGOENABLED=false'' = Inr env1"
    using setenv_total [of "''CGOENABLED=false''" environ] by auto
  obtain env2 where 2: "setenv env1 ''GOARCH=amd64'' = Inr env2"
    using setenv_total [of "''GOARCH=amd64''" env1] by auto
  obtain env3 where 3: "setenv env2 ''GOOS=linux'' = Inr env3"
    using setenv_total [of "''GOOS=linux''" env2] by auto
  from True 1 2 3 show ?thesis by (simp add: compile_env_def)
qed

subsection \<open>What writeHooks does to the files of the hooks directory\<close>

lemma mkdirs_other: "p \<notin> set ds \<Longrightarrow> mkdirs ds s p = s p"
  by (induction ds arbitrary: s) auto

lemma MkdirAll_file:
  assumes "fst (MkdirAll d perm s) = None" and "is_file s p"
  shows "snd (MkdirAll d perm s) p = s p"
proof -
  from assms(1) have none: "find (is_file s) (dir_chain d) = None"
    and res: "snd (MkdirAll d perm s) = mkdirs (dir_chain d) s"
    by (auto simp: MkdirAll_def split: option.splits)
  from none assms(2) have "p \<notin> set (dir_chain d)"
    by (auto simp: find_None_iff)
  then show ?thesis by (simp add: res mkdirs_other)
qed

lemma writeHooks_loop_result:
  assumes "fst (writeHooks_loop b d hooks s) = None"
  shows "(snd (writeHooks_loop b d hooks s) p = s p \<and> (\<forall>n \<in> set hooks. Join [d, n] \<noteq> p))
       \<or> (\<exists>n \<in> set hooks. \<exists>perm. Join [d, n] = p \<and>
             snd (writeHooks_loop b d hooks s) p = Some (RegFile (hookStub b n) perm))"
  using assms
proof (induction hooks arbitrary: s)
  case Nil
  then show ?case by simp
next
  case (Cons x rest)
  let ?w = "WriteFile (Join [d, x]) (hookStub b x) 493 s"
  from Cons.prems have w: "fst ?w = None"
    by (cases ?w) (auto split: option.splits)
  then have step: "writeHooks_loop b d (x # rest) s = writeHooks_loop b d rest (snd ?w)"
    by (cases ?w) auto
  with Cons.prems have ok: "fst (writeHooks_loop b d rest (snd ?w)) = None" by simp
  from WriteFile_ok [OF w] obtain perm' where
    s1: "snd ?w = s(Join [d, x] \<mapsto> RegFile (hookStub b x) perm')" by blast
  from Cons.IH [OF ok] show ?case unfolding step
  proof
    assume a: "snd (writeHooks_loop b d rest (snd ?w)) p = snd ?w p \<and>
      (\<forall>n \<in> set rest. Join [d, n] \<noteq> p)"
    show "(snd (writeHooks_loop b d rest (snd ?w)) p = s p \<and>
            (\<forall>n \<in> set (x # rest). Join [d, n] \<noteq> p))
        \<or> (\<exists>n \<in> set (x # rest). \<exists>perm. Join [d, n] = p \<and>
              snd (writeHooks_loop b d rest (snd ?w)) p = Some (RegFile (hookStub b n) perm))"
    proof (cases "Join [d, x] = p")
      case True
      with a s1 have "snd (writeHooks_loop b d rest (snd ?w)) p
          = Some (RegFile (hookStub b x) perm')"
        by simp
      with True show ?thesis by auto
    next
      case False
      with a s1 have "snd (writeHooks_loop b d rest (snd ?w)) p = s p" by simp
      with a False show ?thesis by auto
    qed
  next
    assume "\<exists>n \<in> set rest. \<exists>perm. Join [d, n] = p \<and>
      snd (writeHooks_loop b d rest (snd ?w)) p = Some (RegFile (hookStub b n) perm)"
    then show "(snd (writeHooks_loop b d rest (snd ?w)) p = s p \<and>
            (\<forall>n \<in> set (x # rest). Join [d, n] \<noteq> p))
        \<or> (\<exists>n \<in> set (x # rest). \<exists>perm. Join [d, n] = p \<and>
              snd (writeHooks_loop b d rest (snd ?w)) p = Some (RegFile (hookStub b n) perm))"
      by auto
  qed
qed

lemma writeHooks_unfold:
  assumes "fst (writeHooks b hooks s) = None"
  shows "fst (MkdirAll (Join [charmDir b, ''hooks'']) 511 s) = None"
    and "writeHooks b hooks s
           = writeHooks_loop b (Join [charmDir b, ''hooks'']) hooks
               (snd (MkdirAll (Join [charmDir b, ''hooks'']) 511 s))"
proof -
  let ?d = "Join [charmDir b, ''hooks'']"
  from assms show m: "fst (MkdirAll ?d 511 s) = None"
    by (simp add: writeHooks_def Let_def orReturn_None)
  from assms m have r: "fst (ReadDir ?d (snd (MkdirAll ?d 511 s))) = None"
    by (simp add: writeHooks_def Let_def orReturn_None orReturn_ok)
  have "snd (ReadDir ?d (snd (MkdirAll ?d 511 s))) = snd (MkdirAll ?d 511 s)"
    by (simp add: ReadDir_def)
  with m r show "writeHooks b hooks s = writeHooks_loop b ?d hooks (snd (MkdirAll ?d 511 s))"
    by (simp add: writeHooks_def Let_def orReturn_ok)
qed

text \<open>
  After a successful \<open>writeHooks\<close> the file of every hook name holds a generated stub,
  whatever it held before; a regular file that is not the file of a hook name is as it
  was.
\<close>

lemma writeHooks_every_hook_is_a_stub:
  assumes "fst (writeHooks b hooks s) = None" and "n \<in> set hooks"
  shows "\<exists>n' \<in> set hooks. \<exists>perm.
           Join [Join [charmDir b, ''hooks''], n'] = Join [Join [charmDir b, ''hooks''], n] \<and>
           snd (writeHooks b hooks s) (Join [Join [charmDir b, ''hooks''], n])
             = Some (RegFile (hookStub b n') perm)"
proof -
  let ?d = "Join [charmDir b, ''hooks'']"
  let ?s1 = "snd (MkdirAll ?d 511 s)"
  from writeHooks_unfold [OF assms(1)] have eq: "writeHooks b hooks s = writeHooks_loop b ?d hooks ?s1"
    by simp
  with assms(1) have "fst (writeHooks_loop b ?d hooks ?s1) = None" by simp
  from writeHooks_loop_result [OF this, of "Join [?d, n]"] assms(2)
  show ?thesis unfolding eq by blast
qed

lemma writeHooks_keeps_other_files:
  assumes "fst (writeHooks b hooks s) = None" and "is_file s p"
    and "\<forall>n \<in> set hooks. Join [Join [charmDir b, ''hooks''], n] \<noteq> p"
  shows "snd (writeHooks b hooks s) p = s p"
proof -
  let ?d = "Join [charmDir b, ''hooks'']"
  let ?s1 = "snd (MkdirAll ?d 511 s)"
  from writeHooks_unfold [OF assms(1)] have m: "fst (MkdirAll ?d 511 s) = None"
    and eq: "writeHooks b hooks s = writeHooks_loop b ?d hooks ?s1"
    by simp_all
  with assms(1) have "fst (writeHooks_loop b ?d hooks ?s1) = None" by simp
  from writeHooks_loop_result [OF this, of p] assms(3)
  have "snd (writeHooks b hooks s) p = ?s1 p" unfolding eq by blast
  with MkdirAll_file [OF m assms(2)] show ?thesis by simp
qed

end
